theory Spec2Isabelle
  imports Main "HOL-Library.Char_ord" "HOL-Library.List_Lexorder"
begin

section \<open>Data model of \<open>src/App.js\<close>\<close>

text \<open>
  The application keeps one \<open>AppState\<close> value and replaces it on every user action.
  Strings are lists of 8-bit characters standing for the code units of the JavaScript
  string; the order on them (\<open>Char_ord\<close>, \<open>List_Lexorder\<close>) compares code unit by code
  unit, which is what \<open>Array.prototype.sort\<close> does without a comparator.

  A property that is \<open>undefined\<close> (or missing) is \<open>None\<close>.
\<close>

datatype vtype = TString | TInteger | TBoolean | TFloat

text \<open>
  A JavaScript number, by what its conversion to a string reads off it: \<open>NaN\<close>; an
  infinity with its sign (\<open>True\<close> for the negative one); or a finite value, given by
  its sign, the digits \<open>s\<close> of its shortest decimal representation read as a natural
  number, and the decimal exponent \<open>n\<close>: the value is \<open>s * 10 ^ (n - k)\<close> with \<open>k\<close> the
  number of digits of \<open>s\<close>, negated when the sign is \<open>True\<close>. Both zeros have \<open>s = 0\<close>.
  So 10 is \<open>Decimal False 1 2\<close>, 0.5 is \<open>Decimal False 5 0\<close> and \<open>1e21\<close> is
  \<open>Decimal False 1 22\<close>.
\<close>

datatype number = NaN | Infinity bool | Decimal bool nat int

record ValidationRule =
  type :: "vtype option"
  regex :: "string option"
  allowedValues :: "string list option"
  min_val :: "number option"
  max_val :: "number option"

record ColumnConfig =
  name :: string
  validation :: ValidationRule

record AppState =
  columnConfigs :: "ColumnConfig list"
  availableColumns :: "string list"
  loading :: bool
  error :: "string option"
  yamlConfig :: string
  configSaved :: bool

text \<open>
  What a failing property read throws: \<open>xs[index].name\<close> with \<open>xs[index]\<close> undefined.
\<close>

datatype exn = TypeError

definition initialState :: AppState where
  "initialState =
     \<lparr> columnConfigs = [],
       availableColumns =
         [ ''store_id'',
           ''zone_name'',
           ''machine_project_id'',
           ''fleet_project_id'',
           ''cluster_name'',
           ''location'',
           ''node_count'',
           ''cluster_ipv4_cidr'',
           ''services_ipv4_cidr'',
           ''external_load_balancer_ipv4_address_pools'',
           ''sync_repo'',
           ''sync_branch'',
           ''sync_dir'',
           ''secrets_project_id'',
           ''git_token_secrets_manager_name'',
           ''cluster_version'',
           ''maintenance_window_start'',
           ''maintenance_window_end'',
           ''maintenance_window_recurrence'',
           ''maintenance_exclusion_name_1'',
           ''maintenance_exclusion_start_1'',
           ''maintenance_exclusion_end_1'',
           ''subnet_vlans'',
           ''recreate_on_delete'' ],
       loading = False,
       error = None,
       yamlConfig = [],
       configSaved = False \<rparr>"

text \<open>The universe of column names is whatever the initial pool holds.\<close>

definition UniverseOfColumnNames :: "string set" where
  "UniverseOfColumnNames = set (availableColumns initialState)"

section \<open>The configuration store\<close>

text \<open>
  \<open>xs[index]\<close>: the element when the index is in range, \<open>undefined\<close> otherwise
  (also for a negative index).
\<close>

definition at_index :: "'a list \<Rightarrow> int \<Rightarrow> 'a option" where
  "at_index xs index =
     (if 0 \<le> index \<and> index < int (length xs) then Some (xs ! nat index) else None)"

text \<open>\<open>xs.filter((_, i) => i !== index)\<close>.\<close>

definition filter_other_index :: "'a list \<Rightarrow> int \<Rightarrow> 'a list" where
  "filter_other_index xs index =
     map fst (filter (\<lambda>(x, i). int i \<noteq> index) (zip xs [0 ..< length xs]))"

text \<open>
  \<open>xs[index] = v\<close> on a copy of the array, used only after \<open>xs[index]\<close> has been read
  successfully, so the index is in range.
\<close>

definition set_index :: "'a list \<Rightarrow> int \<Rightarrow> 'a \<Rightarrow> 'a list" where
  "set_index xs index v = xs[nat index := v]"

text \<open>
  \<open>addColumnConfig\<close>: with a non-empty pool, the first available name gets a
  configuration \<open>{ type: 'string' }\<close>, appended to the configurations.
\<close>

definition addColumnConfig :: "AppState \<Rightarrow> AppState" where
  "addColumnConfig state =
     (if length (availableColumns state) > 0 then
        (let newColumnName = hd (availableColumns state);
             newConfig = \<lparr> name = newColumnName,
                           validation = \<lparr> type = Some TString, regex = None,
                                          allowedValues = None, min_val = None,
                                          max_val = None \<rparr> \<rparr>
         in state \<lparr> columnConfigs := columnConfigs state @ [newConfig],
                    availableColumns := tl (availableColumns state),
                    configSaved := False \<rparr>)
      else state)"

text \<open>
  \<open>removeColumnConfig\<close>: reads \<open>state.columnConfigs[index].name\<close> first, which throws
  when there is no such element; then drops the element at that position of
  \<open>columnConfigs\<close> and puts the name back into the pool, sorted.
\<close>

definition removeColumnConfig :: "AppState \<Rightarrow> int \<Rightarrow> exn + AppState" where
  "removeColumnConfig state index =
     (case at_index (columnConfigs state) index of
        None \<Rightarrow> Inl TypeError
      | Some c \<Rightarrow>
          (let removedColumn = name c
           in Inr (state \<lparr> columnConfigs := filter_other_index (columnConfigs state) index,
                           availableColumns := sort (availableColumns state @ [removedColumn]),
                           configSaved := False \<rparr>)))"

text \<open>
  \<open>handleColumnSelect\<close>: the configuration at \<open>index\<close> of \<open>columnConfigs\<close> takes the
  selected name; the pool loses the selected name, gains the old one and is sorted.
\<close>

definition handleColumnSelect :: "AppState \<Rightarrow> int \<Rightarrow> string \<Rightarrow> exn + AppState" where
  "handleColumnSelect prevState index selectedColumn =
     (case at_index (columnConfigs prevState) index of
        None \<Rightarrow> Inl TypeError
      | Some c \<Rightarrow>
          (let oldColumnName = name c;
               updatedConfigs = set_index (columnConfigs prevState) index
                                  (c \<lparr> name := selectedColumn \<rparr>);
               updatedAvailable =
                 sort (filter (\<lambda>col. col \<noteq> selectedColumn) (availableColumns prevState)
                       @ [oldColumnName])
           in Inr (prevState \<lparr> columnConfigs := updatedConfigs,
                               availableColumns := updatedAvailable,
                               configSaved := False \<rparr>)))"

text \<open>
  The argument of \<open>updateColumnConfig\<close> is a partial object: a property is either left
  out or given (possibly as \<open>undefined\<close>).
\<close>

datatype 'a field = Omitted | Given 'a

record PartialValidationRule =
  p_type :: "vtype option field"
  p_regex :: "string option field"
  p_allowedValues :: "string list option field"
  p_min :: "number option field"
  p_max :: "number option field"

record PartialColumnConfig =
  p_name :: "string field"
  p_validation :: "PartialValidationRule option"

text \<open>Object spread of one property: \<open>{...old, ...new}\<close>.\<close>

definition spread :: "'a \<Rightarrow> 'a field \<Rightarrow> 'a" where
  "spread old new = (case new of Omitted \<Rightarrow> old | Given v \<Rightarrow> v)"

definition spread_validation :: "ValidationRule \<Rightarrow> PartialValidationRule option \<Rightarrow> ValidationRule" where
  "spread_validation old new =
     (case new of
        None \<Rightarrow> old
      | Some p \<Rightarrow> \<lparr> type = spread (type old) (p_type p),
                     regex = spread (regex old) (p_regex p),
                     allowedValues = spread (allowedValues old) (p_allowedValues p),
                     min_val = spread (min_val old) (p_min p),
                     max_val = spread (max_val old) (p_max p) \<rparr>)"

text \<open>
  \<open>updateColumnConfig\<close>: \<open>updatedConfigs[index].validation\<close> throws when there is no
  element at \<open>index\<close>; otherwise the element becomes the old one overlaid with the
  given properties, its validation the old validation overlaid with the given one.
\<close>

definition updateColumnConfig :: "AppState \<Rightarrow> int \<Rightarrow> PartialColumnConfig \<Rightarrow> exn + AppState" where
  "updateColumnConfig prevState index newConfig =
     (case at_index (columnConfigs prevState) index of
        None \<Rightarrow> Inl TypeError
      | Some c \<Rightarrow>
          (let updatedConfigs = set_index (columnConfigs prevState) index
                 \<lparr> name = spread (name c) (p_name newConfig),
                   validation = spread_validation (validation c) (p_validation newConfig) \<rparr>
           in Inr (prevState \<lparr> columnConfigs := updatedConfigs,
                               configSaved := False \<rparr>)))"

text \<open>
  The display order: \<open>[...state.columnConfigs].sort((a, b) => a.name.localeCompare(b.name))\<close>.
  \<open>String.prototype.localeCompare\<close> is the collation of the host and its locale, so it
  is a parameter here: a negative result puts the first name before the second, a
  positive one after it. \<open>Array.prototype.sort\<close> is stable, and with a consistent
  comparator every stable sort gives the same array; the model inserts the elements one
  by one, from the last to the first, each before the first element it does not follow.
\<close>

fun insert_sorted :: "('a \<Rightarrow> 'a \<Rightarrow> int) \<Rightarrow> 'a \<Rightarrow> 'a list \<Rightarrow> 'a list" where
  "insert_sorted cmp x [] = [x]"
| "insert_sorted cmp x (y # ys) =
     (if cmp x y \<le> 0 then x # y # ys else y # insert_sorted cmp x ys)"

definition sort_with :: "('a \<Rightarrow> 'a \<Rightarrow> int) \<Rightarrow> 'a list \<Rightarrow> 'a list" where
  "sort_with cmp xs = foldr (insert_sorted cmp) xs []"

definition sortedColumnConfigs :: "(string \<Rightarrow> string \<Rightarrow> int) \<Rightarrow> AppState \<Rightarrow> ColumnConfig list" where
  "sortedColumnConfigs localeCompare state =
     sort_with (\<lambda>a b. localeCompare (name a) (name b)) (columnConfigs state)"

text \<open>
  The store operations of the specification, by the handler that implements each:
  \<open>addColumn\<close> is \<open>addColumnConfig\<close>, \<open>removeColumn\<close> is \<open>removeColumnConfig\<close>,
  \<open>renameColumn\<close> is \<open>handleColumnSelect\<close>, and \<open>updateValidation\<close> is
  \<open>updateColumnConfig\<close> called with an object that has a \<open>validation\<close> property only,
  as every caller in the source does.
\<close>

definition updateValidation :: "AppState \<Rightarrow> int \<Rightarrow> PartialValidationRule \<Rightarrow> exn + AppState" where
  "updateValidation state index partialRule =
     updateColumnConfig state index \<lparr> p_name = Omitted, p_validation = Some partialRule \<rparr>"

datatype operation = AddColumn | RemoveColumn int | RenameColumn int string

fun apply_operation :: "AppState \<Rightarrow> operation \<Rightarrow> exn + AppState" where
  "apply_operation s AddColumn = Inr (addColumnConfig s)"
| "apply_operation s (RemoveColumn i) = removeColumnConfig s i"
| "apply_operation s (RenameColumn i n) = handleColumnSelect s i n"

text \<open>A sequence of user actions; an exception ends it.\<close>

fun run_operations :: "AppState \<Rightarrow> operation list \<Rightarrow> exn + AppState" where
  "run_operations s [] = Inr s"
| "run_operations s (x # xs) =
     (case apply_operation s x of Inl e \<Rightarrow> Inl e | Inr s' \<Rightarrow> run_operations s' xs)"

text \<open>
  The precondition of one operation: the index in range, the new name of a rename in the
  pool. \<open>operations_ok\<close> asks for it at every step of a sequence.
\<close>

fun operation_ok :: "AppState \<Rightarrow> operation \<Rightarrow> bool" where
  "operation_ok s AddColumn = True"
| "operation_ok s (RemoveColumn i) = (0 \<le> i \<and> i < int (length (columnConfigs s)))"
| "operation_ok s (RenameColumn i n) =
     (0 \<le> i \<and> i < int (length (columnConfigs s)) \<and> n \<in> set (availableColumns s))"

fun operations_ok :: "AppState \<Rightarrow> operation list \<Rightarrow> bool" where
  "operations_ok s [] = True"
| "operations_ok s (x # xs) =
     (operation_ok s x \<and>
      (case apply_operation s x of Inl e \<Rightarrow> False | Inr s' \<Rightarrow> operations_ok s' xs))"

definition configNames :: "AppState \<Rightarrow> string list" where
  "configNames s = map name (columnConfigs s)"

text \<open>
  What the store maintains: no name is configured twice or pooled twice, no name is
  both, and together they are the universe.
\<close>

definition store_inv :: "AppState \<Rightarrow> bool" where
  "store_inv s =
     (distinct (configNames s) \<and> distinct (availableColumns s) \<and>
      set (configNames s) \<inter> set (availableColumns s) = {} \<and>
      set (configNames s) \<union> set (availableColumns s) = UniverseOfColumnNames)"

section \<open>The YAML emitter\<close>

definition type_to_string :: "vtype \<Rightarrow> string" where
  "type_to_string t =
     (case t of TString \<Rightarrow> ''string'' | TInteger \<Rightarrow> ''integer''
      | TBoolean \<Rightarrow> ''boolean'' | TFloat \<Rightarrow> ''float'')"

text \<open>The decimal digits of a natural number.\<close>

definition digit_char :: "nat \<Rightarrow> char" where
  "digit_char d = char_of (48 + d)"

fun nat_to_string :: "nat \<Rightarrow> string" where
  "nat_to_string n =
     (if n < 10 then [digit_char n] else nat_to_string (n div 10) @ [digit_char (n mod 10)])"

declare nat_to_string.simps [simp del]

text \<open>
  \<open>Number::toString\<close> of the language, for a positive finite value with digits \<open>s\<close> and
  exponent \<open>n\<close>: the digits followed by zeros when the value is an integer below
  \<open>10 ^ 21\<close>; the digits with a decimal point inside them when \<open>0 < n \<le> 21\<close>; \<open>0.\<close>,
  zeros and the digits when \<open>-6 < n \<le> 0\<close>; exponent notation otherwise.
\<close>

definition decimal_to_string :: "nat \<Rightarrow> int \<Rightarrow> string" where
  "decimal_to_string s n =
     (let ds = nat_to_string s; k = int (length ds)
      in if k \<le> n \<and> n \<le> 21 then ds @ replicate (nat (n - k)) (CHR ''0'')
         else if 0 < n \<and> n \<le> 21 then take (nat n) ds @ ''.'' @ drop (nat n) ds
         else if - 6 < n \<and> n \<le> 0 then ''0.'' @ replicate (nat (- n)) (CHR ''0'') @ ds
         else (let e = n - 1;
                   exponent = (if e < 0 then ''-'' else ''+'') @ nat_to_string (nat \<bar>e\<bar>)
               in if k = 1 then ds @ ''e'' @ exponent
                  else take 1 ds @ ''.'' @ drop 1 ds @ ''e'' @ exponent))"

text \<open>
  \<open>`${rules.min}`\<close>: \<open>NaN\<close>, \<open>0\<close> for both zeros, a minus sign before a negative
  value, \<open>Infinity\<close>, and the decimal form otherwise.
\<close>

definition number_to_string :: "number \<Rightarrow> string" where
  "number_to_string x =
     (case x of
        NaN \<Rightarrow> ''NaN''
      | Infinity negative \<Rightarrow> (if negative then ''-Infinity'' else ''Infinity'')
      | Decimal negative s n \<Rightarrow>
          (if s = 0 then ''0''
           else (if negative then ''-'' else []) @ decimal_to_string s n))"

text \<open>
  The number that an integer is: its digits without the zeros at their end, and as
  exponent the number of its digits. (An integer of absolute value up to \<open>2 ^ 53\<close> is a
  number of the language, and these are the digits of its shortest representation.)
\<close>

fun strip_zeros :: "nat \<Rightarrow> nat" where
  "strip_zeros n = (if n \<noteq> 0 \<and> n mod 10 = 0 then strip_zeros (n div 10) else n)"

declare strip_zeros.simps [simp del]

definition number_of_int :: "int \<Rightarrow> number" where
  "number_of_int i =
     Decimal (i < 0) (strip_zeros (nat \<bar>i\<bar>)) (int (length (nat_to_string (nat \<bar>i\<bar>))))"

text \<open>
  \<open>JSON.stringify\<close> of an array of strings: each string between double quotes, with the
  double quote, the backslash and the control characters escaped; the strings separated
  by commas, between brackets.
\<close>

definition hex_digit :: "nat \<Rightarrow> char" where
  "hex_digit d = (if d < 10 then char_of (48 + d) else char_of (87 + d))"

definition json_escape_char :: "char \<Rightarrow> string" where
  "json_escape_char c =
     (if c = CHR 0x22 then [CHR 0x5C, CHR 0x22]
      else if c = CHR 0x5C then [CHR 0x5C, CHR 0x5C]
      else if c = CHR 0x08 then [CHR 0x5C, CHR ''b'']
      else if c = CHR 0x0C then [CHR 0x5C, CHR ''f'']
      else if c = CHR 0x0A then [CHR 0x5C, CHR ''n'']
      else if c = CHR 0x0D then [CHR 0x5C, CHR ''r'']
      else if c = CHR 0x09 then [CHR 0x5C, CHR ''t'']
      else if (of_char c :: nat) < 32
        then [CHR 0x5C, CHR ''u'', CHR ''0'', CHR ''0'',
              hex_digit (of_char c div 16), hex_digit (of_char c mod 16)]
      else [c])"

definition json_quote :: "string \<Rightarrow> string" where
  "json_quote s = [CHR 0x22] @ concat (map json_escape_char s) @ [CHR 0x22]"

text \<open>\<open>xs.join(sep)\<close>.\<close>

fun join :: "string \<Rightarrow> string list \<Rightarrow> string" where
  "join sep [] = []"
| "join sep [x] = x"
| "join sep (x # y # ys) = x @ sep @ join sep (y # ys)"

definition JSON_stringify :: "string list \<Rightarrow> string" where
  "JSON_stringify vs = ''['' @ join '','' (map json_quote vs) @ '']''"

text \<open>
  The object \<open>config\<close> that the emitter fills, as the list of its own properties in the
  order of their creation. Assigning to a name that is already an own property replaces
  the value and leaves the property where it is; a new name goes to the end.
\<close>

fun assign_property :: "(string \<times> 'v) list \<Rightarrow> string \<Rightarrow> 'v \<Rightarrow> (string \<times> 'v) list" where
  "assign_property [] k v = [(k, v)]"
| "assign_property ((k', v') # ps) k v =
     (if k' = k then (k, v) # ps else (k', v') # assign_property ps k v)"

text \<open>
  \<open>config[k] = v\<close> on an object created by \<open>{}\<close>, with \<open>v\<close> an object: for the name
  \<open>__proto__\<close> the assignment reaches the setter that \<open>Object.prototype\<close> has for it
  and replaces the prototype of \<open>config\<close>, so no own property is made or changed; for
  every other name it makes or replaces the own property.
\<close>

definition set_property :: "(string \<times> 'v) list \<Rightarrow> string \<Rightarrow> 'v \<Rightarrow> (string \<times> 'v) list" where
  "set_property obj k v = (if k = ''__proto__'' then obj else assign_property obj k v)"

text \<open>
  An array index is the decimal form, without a sign or a leading zero, of an integer
  from 0 to \<open>2 ^ 32 - 2\<close>.
\<close>

definition is_digit :: "char \<Rightarrow> bool" where
  "is_digit c = (CHR ''0'' \<le> c \<and> c \<le> CHR ''9'')"

definition string_to_nat :: "string \<Rightarrow> nat" where
  "string_to_nat k = foldl (\<lambda>a c. 10 * a + (of_char c - 48)) 0 k"

definition is_array_index :: "string \<Rightarrow> bool" where
  "is_array_index k =
     (k \<noteq> [] \<and> list_all is_digit k \<and> (k = ''0'' \<or> hd k \<noteq> CHR ''0'')
      \<and> string_to_nat k \<le> 4294967294)"

text \<open>
  \<open>Object.entries(obj)\<close>: the own properties whose names are array indices first, in
  ascending order of the index, then the other own properties in the order of their
  creation.
\<close>

definition Object_entries :: "(string \<times> 'v) list \<Rightarrow> (string \<times> 'v) list" where
  "Object_entries obj =
     sort_key (\<lambda>e. string_to_nat (fst e)) (filter (\<lambda>e. is_array_index (fst e)) obj)
     @ filter (\<lambda>e. \<not> is_array_index (fst e)) obj"

text \<open>\<open>columnConfigs.forEach((col) => { config[col.name] = col.validation; })\<close>.\<close>

definition config_object :: "ColumnConfig list \<Rightarrow> (string \<times> ValidationRule) list" where
  "config_object configs =
     foldl (\<lambda>config col. set_property config (name col) (validation col)) [] configs"

text \<open>\<open>Object.entries(config)\<close> after the loop.\<close>

definition config_entries :: "ColumnConfig list \<Rightarrow> (string \<times> ValidationRule) list" where
  "config_entries configs = Object_entries (config_object configs)"

text \<open>
  The template of one entry. A conditional part that does not apply leaves its line with
  the four spaces of indentation only. The test on \<open>regex\<close> is truthiness (an empty
  string counts as absent), the one on \<open>allowedValues\<close> too (every array passes), the
  ones on \<open>min\<close> and \<open>max\<close> compare with \<open>undefined\<close>.
\<close>

definition yaml_entry :: "string \<times> ValidationRule \<Rightarrow> string" where
  "yaml_entry e =
     (case e of (column, rules) \<Rightarrow>
        ''  '' @ column @ '':'' @ ''\<newline>'' @
        ''    type: '' @ (case type rules of Some t \<Rightarrow> type_to_string t | None \<Rightarrow> ''string'')
          @ ''\<newline>'' @
        ''    '' @ (case regex rules of
                     Some r \<Rightarrow> (if r \<noteq> [] then ''regex: '' @ [CHR 0x22] @ r @ [CHR 0x22] else [])
                   | None \<Rightarrow> [])
          @ ''\<newline>'' @
        ''    '' @ (case allowedValues rules of
                     Some vs \<Rightarrow> ''allowed_values: '' @ JSON_stringify vs
                   | None \<Rightarrow> [])
          @ ''\<newline>'' @
        ''    '' @ (case min_val rules of Some n \<Rightarrow> ''min: '' @ number_to_string n | None \<Rightarrow> [])
          @ ''\<newline>'' @
        ''    '' @ (case max_val rules of Some n \<Rightarrow> ''max: '' @ number_to_string n | None \<Rightarrow> []))"

definition yaml_header :: string where
  "yaml_header =
     ''# Validation Configuration'' @ ''\<newline>'' @
     ''# This file defines the validation rules for your data.'' @ ''\<newline>'' @
     ''# Each column in your data file should have an entry here.'' @ ''\<newline>'' @
     ''\<newline>''"

definition generateYamlConfig :: "ColumnConfig list \<Rightarrow> string" where
  "generateYamlConfig configs =
     yaml_header @
     ''validations:'' @ ''\<newline>'' @
     join ''\<newline>'' (map yaml_entry (config_entries configs)) @
     ''\<newline>''"

text \<open>
  The lines of a text: its pieces between the newline characters, as splitting the text at
  that character gives them. The source has no such function; the claims about the lines of the
  document are stated with it.
\<close>

fun lines_of :: "string \<Rightarrow> string list" where
  "lines_of [] = [[]]"
| "lines_of (c # cs) =
     (if c = CHR 0x0A then [] # lines_of cs
      else (case lines_of cs of [] \<Rightarrow> [[c]] | l # ls \<Rightarrow> (c # l) # ls))"

declare lines_of.simps [simp del]

text \<open>
  The template writes the column name and the regex as they are; every other part of an
  entry is free of newline characters by its construction. An entry whose name and
  regex hold no newline character is on the six lines of the template.
\<close>

definition single_line_entry :: "string \<times> ValidationRule \<Rightarrow> bool" where
  "single_line_entry e =
     (case e of (column, rules) \<Rightarrow>
        CHR 0x0A \<notin> set column
        \<and> (case regex rules of None \<Rightarrow> True | Some r \<Rightarrow> CHR 0x0A \<notin> set r))"

section \<open>Array helpers\<close>

lemma at_index_Some_iff:
  "at_index xs i = Some c \<longleftrightarrow> 0 \<le> i \<and> i < int (length xs) \<and> c = xs ! nat i"
  by (auto simp: at_index_def)

lemma at_index_in_range:
  "0 \<le> i \<Longrightarrow> i < int (length xs) \<Longrightarrow> at_index xs i = Some (xs ! nat i)"
  by (simp add: at_index_def)

lemma filter_other_index_nths:
  "filter_other_index xs i = nths xs {j. int j \<noteq> i}"
  by (simp add: filter_other_index_def nths_def case_prod_unfold)

section \<open>Removing at an index that is out of range\<close>

text \<open>
  Claim C2, as the code has it: for every state and every index that is out of range for
  \<open>columnConfigs\<close> (negative, or at least its length), \<open>removeColumnConfig\<close> throws a
  \<open>TypeError\<close> from its first statement, the read of \<open>state.columnConfigs[index].name\<close>.
  No new state is produced, so the state of the application stays as it was; the
  exception is not caught and reaches the caller.
\<close>

theorem removeColumn_out_of_range_throws:
  "\<not> (0 \<le> index \<and> index < int (length (columnConfigs state)))
   \<Longrightarrow> removeColumnConfig state index = Inl TypeError"
  by (simp add: removeColumnConfig_def at_index_def)

theorem removeColumn_out_of_range_throws_witness:
  "\<not> (0 \<le> (3::int) \<and> (3::int) < int (length (columnConfigs (addColumnConfig initialState))))
   \<and> removeColumnConfig (addColumnConfig initialState) 3 = Inl TypeError"
  using removeColumn_out_of_range_throws [of 3 "addColumnConfig initialState"]
  by (simp add: addColumnConfig_def initialState_def)

text \<open>
  The claim as written says that no exception reaches the caller. In the initial state
  there is no configuration, index 0 is out of range, and the call throws.
\<close>

theorem removeColumn_out_of_range_counterexample:
  "\<not> (0 \<le> (0::int) \<and> (0::int) < int (length (columnConfigs initialState)))
   \<and> removeColumnConfig initialState 0 = Inl TypeError"
  by (simp add: removeColumnConfig_def at_index_def initialState_def)

section \<open>Adding a column\<close>

text \<open>
  Claim C4: when the pool is not empty, \<open>addColumnConfig\<close> takes its first name, appends
  a configuration for that name whose rule has type \<open>string\<close> and neither \<open>regex\<close>,
  \<open>allowedValues\<close>, \<open>min\<close> nor \<open>max\<close>, and the pool becomes its own tail (which no longer
  holds the name when the pool had no duplicates); when the pool is empty, the state is
  returned as it is.
\<close>

theorem addColumn_claims_first:
  "(availableColumns s = a # rest \<longrightarrow>
      addColumnConfig s =
        s \<lparr> columnConfigs := columnConfigs s @
               [\<lparr> name = a,
                  validation = \<lparr> type = Some TString, regex = None, allowedValues = None,
                                 min_val = None, max_val = None \<rparr> \<rparr>],
            availableColumns := rest,
            configSaved := False \<rparr>
      \<and> (distinct (availableColumns s) \<longrightarrow> a \<notin> set (availableColumns (addColumnConfig s))))
   \<and> (availableColumns s = [] \<longrightarrow> addColumnConfig s = s)"
  by (simp add: addColumnConfig_def)

theorem addColumn_claims_first_witness:
  "availableColumns initialState = ''store_id'' # tl (availableColumns initialState)
   \<and> distinct (availableColumns initialState)
   \<and> columnConfigs (addColumnConfig initialState) =
        [\<lparr> name = ''store_id'',
           validation = \<lparr> type = Some TString, regex = None, allowedValues = None,
                          min_val = None, max_val = None \<rparr> \<rparr>]
   \<and> ''store_id'' \<notin> set (availableColumns (addColumnConfig initialState))
   \<and> availableColumns (initialState \<lparr> availableColumns := [] \<rparr>) = []
   \<and> addColumnConfig (initialState \<lparr> availableColumns := [] \<rparr>)
        = initialState \<lparr> availableColumns := [] \<rparr>"
  using addColumn_claims_first [of initialState "''store_id''" "tl (availableColumns initialState)"]
        addColumn_claims_first [of "initialState \<lparr> availableColumns := [] \<rparr>"]
  by (simp add: initialState_def)

section \<open>The invariant of the store\<close>

lemma configNames_add:
  "availableColumns s = a # rest \<Longrightarrow> configNames (addColumnConfig s) = configNames s @ [a]"
  by (simp add: configNames_def addColumnConfig_def)

lemma store_inv_add: "store_inv s \<Longrightarrow> store_inv (addColumnConfig s)"
proof (cases "availableColumns s")
  case Nil
  assume "store_inv s"
  with Nil show ?thesis by (simp add: addColumnConfig_def)
next
  case (Cons a rest)
  assume inv: "store_inv s"
  have names: "configNames (addColumnConfig s) = configNames s @ [a]"
    using Cons by (rule configNames_add)
  have avail: "availableColumns (addColumnConfig s) = rest"
    using Cons by (simp add: addColumnConfig_def)
  from inv Cons show ?thesis
    unfolding store_inv_def names avail by auto
qed

lemma set_nths_other:
  assumes "distinct xs" "n < length xs"
  shows "set (nths xs {j. j \<noteq> n}) = set xs - {xs ! n}"
  using assms by (auto simp: set_nths nth_eq_iff_index_eq in_set_conv_nth)

lemma other_index_set: "0 \<le> i \<Longrightarrow> {j. int j \<noteq> i} = {j. j \<noteq> nat i}"
  by auto

lemma removeColumn_Inr:
  assumes "removeColumnConfig s i = Inr s'"
  shows "0 \<le> i \<and> i < int (length (columnConfigs s))
         \<and> configNames s' = nths (configNames s) {j. j \<noteq> nat i}
         \<and> availableColumns s' = sort (availableColumns s @ [configNames s ! nat i])"
  using assms
  by (auto simp: removeColumnConfig_def at_index_Some_iff configNames_def
        filter_other_index_nths nths_map other_index_set Let_def split: option.splits)

lemma store_inv_remove:
  assumes inv: "store_inv s" and r: "removeColumnConfig s i = Inr s'"
  shows "store_inv s'"
proof -
  let ?n = "configNames s ! nat i"
  from removeColumn_Inr [OF r]
  have rng: "nat i < length (configNames s)"
    and names: "configNames s' = nths (configNames s) {j. j \<noteq> nat i}"
    and avail: "availableColumns s' = sort (availableColumns s @ [?n])"
    by (auto simp: configNames_def)
  from inv have d: "distinct (configNames s)" by (simp add: store_inv_def)
  have set_names: "set (configNames s') = set (configNames s) - {?n}"
    unfolding names using d rng by (rule set_nths_other)
  have mem: "?n \<in> set (configNames s)" using rng by simp
  have dn: "distinct (configNames s')" unfolding names using d by (rule distinct_nthsI)
  from inv mem dn show ?thesis
    unfolding store_inv_def set_names avail by auto
qed

lemma handleColumnSelect_Inr:
  assumes "handleColumnSelect s i n = Inr s'"
  shows "0 \<le> i \<and> i < int (length (columnConfigs s))
         \<and> configNames s' = (configNames s)[nat i := n]
         \<and> availableColumns s' =
             sort (filter (\<lambda>col. col \<noteq> n) (availableColumns s) @ [configNames s ! nat i])"
  using assms
  by (auto simp: handleColumnSelect_def at_index_Some_iff configNames_def set_index_def
        map_update Let_def split: option.splits)

lemma store_inv_rename:
  assumes inv: "store_inv s" and r: "handleColumnSelect s i n = Inr s'"
    and sel: "n \<in> set (availableColumns s)"
  shows "store_inv s'"
proof -
  let ?old = "configNames s ! nat i"
  from handleColumnSelect_Inr [OF r]
  have rng: "nat i < length (configNames s)"
    and names: "configNames s' = (configNames s)[nat i := n]"
    and avail: "availableColumns s' =
                  sort (filter (\<lambda>col. col \<noteq> n) (availableColumns s) @ [?old])"
    by (auto simp: configNames_def)
  from inv have d: "distinct (configNames s)" by (simp add: store_inv_def)
  from inv sel have fresh: "n \<notin> set (configNames s)" by (auto simp: store_inv_def)
  have set_names: "set (configNames s') = insert n (set (configNames s) - {?old})"
    unfolding names using d rng by (rule set_update_distinct)
  have dn: "distinct (configNames s')"
    unfolding names using d fresh by (simp add: distinct_list_update)
  have mem: "?old \<in> set (configNames s)" using rng by simp
  from inv mem dn sel fresh show ?thesis
    unfolding store_inv_def set_names avail by auto
qed

lemma store_inv_step:
  "store_inv s \<Longrightarrow> operation_ok s x \<Longrightarrow> apply_operation s x = Inr s' \<Longrightarrow> store_inv s'"
  by (cases x) (auto intro: store_inv_add store_inv_remove store_inv_rename)

lemma operation_ok_succeeds:
  "operation_ok s x \<Longrightarrow> \<exists>s'. apply_operation s x = Inr s'"
  by (cases x)
     (auto simp: removeColumnConfig_def handleColumnSelect_def at_index_in_range Let_def)

lemma store_inv_run:
  "store_inv s \<Longrightarrow> operations_ok s xs
   \<Longrightarrow> \<exists>s'. run_operations s xs = Inr s' \<and> store_inv s'"
proof (induction xs arbitrary: s)
  case Nil
  then show ?case by simp
next
  case (Cons x xs)
  from Cons.prems obtain s1 where s1: "apply_operation s x = Inr s1"
    and ok: "operation_ok s x" and rest: "operations_ok s1 xs"
    by (auto split: sum.splits)
  from Cons.prems(1) ok s1 have "store_inv s1" by (rule store_inv_step)
  from Cons.IH [OF this rest] s1 show ?case by simp
qed

lemma operations_ok_take: "operations_ok s xs \<Longrightarrow> operations_ok s (take k xs)"
proof (induction xs arbitrary: s k)
  case Nil
  then show ?case by simp
next
  case (Cons x xs)
  then show ?case by (cases k) (auto split: sum.splits)
qed

lemma initialState_names: "configNames initialState = []"
  by (simp add: configNames_def initialState_def)

lemma distinct_initial_pool: "distinct (availableColumns initialState)"
  by (simp add: initialState_def)

lemma store_inv_initialState: "store_inv initialState"
  by (simp add: store_inv_def initialState_names distinct_initial_pool UniverseOfColumnNames_def)

lemma card_Universe: "card UniverseOfColumnNames = 24"
  unfolding UniverseOfColumnNames_def
  by (simp add: distinct_card [OF distinct_initial_pool]) (simp add: initialState_def)

text \<open>
  Claim C1, with the size of the universe as the code has it: for every sequence of
  \<open>addColumn\<close>, \<open>removeColumn\<close> and \<open>renameColumn\<close> operations from the initial state,
  with every index in range and every new name of a rename in the pool at that moment,
  the sequence runs without an exception and after each operation (after every prefix
  of the sequence) the configured names and the pool are disjoint and together make up
  the universe of column names, which has 24 names.
\<close>

theorem store_invariant_after_each_operation:
  assumes "operations_ok initialState ops"
  shows "\<forall>k. \<exists>s'. run_operations initialState (take k ops) = Inr s'
           \<and> set (configNames s') \<inter> set (availableColumns s') = {}
           \<and> set (configNames s') \<union> set (availableColumns s') = UniverseOfColumnNames
           \<and> card UniverseOfColumnNames = 24"
proof
  fix k
  from assms have "operations_ok initialState (take k ops)" by (rule operations_ok_take)
  with store_inv_initialState
  obtain s' where "run_operations initialState (take k ops) = Inr s'" and "store_inv s'"
    using store_inv_run by blast
  then show "\<exists>s'. run_operations initialState (take k ops) = Inr s'
           \<and> set (configNames s') \<inter> set (availableColumns s') = {}
           \<and> set (configNames s') \<union> set (availableColumns s') = UniverseOfColumnNames
           \<and> card UniverseOfColumnNames = 24"
    by (auto simp: store_inv_def card_Universe)
qed

theorem store_invariant_witness:
  "operations_ok initialState
     [AddColumn, AddColumn, RenameColumn 0 ''location'', RemoveColumn 1, AddColumn]
   \<and> (\<exists>s'. run_operations initialState
             (take 4 [AddColumn, AddColumn, RenameColumn 0 ''location'', RemoveColumn 1, AddColumn])
             = Inr s'
           \<and> configNames s' = [''location'']
           \<and> set (configNames s') \<inter> set (availableColumns s') = {}
           \<and> set (configNames s') \<union> set (availableColumns s') = UniverseOfColumnNames)"
proof -
  let ?ops = "[AddColumn, AddColumn, RenameColumn 0 ''location'', RemoveColumn 1, AddColumn]"
  have ok: "operations_ok initialState ?ops"
    by code_simp
  have names: "map_sum id configNames (run_operations initialState (take 4 ?ops)) = Inr [''location'']"
    by code_simp
  from store_invariant_after_each_operation [OF ok]
  obtain s' where "run_operations initialState (take 4 ?ops) = Inr s'"
    and "set (configNames s') \<inter> set (availableColumns s') = {}"
    and "set (configNames s') \<union> set (availableColumns s') = UniverseOfColumnNames"
    by blast
  with ok names show ?thesis by auto
qed

text \<open>
  The claim as written gives the universe 23 names. After one \<open>addColumn\<close> from the
  initial state the configured names and the pool together are 24 names.
\<close>

theorem universe_size_counterexample:
  "card (set (configNames (addColumnConfig initialState))
         \<union> set (availableColumns (addColumnConfig initialState))) \<noteq> 23"
proof -
  have "store_inv (addColumnConfig initialState)"
    using store_inv_initialState by (rule store_inv_add)
  then have "set (configNames (addColumnConfig initialState))
         \<union> set (availableColumns (addColumnConfig initialState)) = UniverseOfColumnNames"
    by (simp add: store_inv_def)
  then show ?thesis by (simp add: card_Universe)
qed

section \<open>Which configuration an index names\<close>

text \<open>
  Claim C3 says that \<open>removeColumn\<close>, \<open>renameColumn\<close> and \<open>updateValidation\<close> resolve
  their index against the configurations sorted by name, the order in which the rows
  are displayed. The handlers index \<open>columnConfigs\<close> itself, which is in insertion
  order. After three \<open>addColumn\<close> steps from the initial state, and for every collation
  that puts \<open>machine_project_id\<close> before \<open>store_id\<close> and \<open>zone_name\<close>, and \<open>store_id\<close>
  before \<open>zone_name\<close>, the rows are displayed as \<open>machine_project_id\<close>, \<open>store_id\<close>,
  \<open>zone_name\<close>; with index 0, the index of the first displayed row, each handler acts
  on \<open>store_id\<close>, the configuration inserted first.
\<close>

theorem index_resolved_in_insertion_order:
  assumes "localeCompare ''zone_name'' ''machine_project_id'' > 0"
    and "localeCompare ''store_id'' ''machine_project_id'' > 0"
    and "localeCompare ''store_id'' ''zone_name'' < 0"
  shows "map name (sortedColumnConfigs localeCompare
            (addColumnConfig (addColumnConfig (addColumnConfig initialState))))
     = [''machine_project_id'', ''store_id'', ''zone_name'']
   \<and> map_sum id configNames
         (removeColumnConfig (addColumnConfig (addColumnConfig (addColumnConfig initialState))) 0)
     = Inr [''zone_name'', ''machine_project_id'']
   \<and> map_sum id configNames
         (handleColumnSelect (addColumnConfig (addColumnConfig (addColumnConfig initialState))) 0
            ''location'')
     = Inr [''location'', ''zone_name'', ''machine_project_id'']
   \<and> map_sum id (\<lambda>s. map (\<lambda>c. (name c, type (validation c))) (columnConfigs s))
         (updateValidation (addColumnConfig (addColumnConfig (addColumnConfig initialState))) 0
            \<lparr> p_type = Given (Some TInteger), p_regex = Omitted, p_allowedValues = Omitted,
              p_min = Omitted, p_max = Omitted \<rparr>)
     = Inr [(''store_id'', Some TInteger), (''zone_name'', Some TString),
            (''machine_project_id'', Some TString)]"
proof (intro conjI)
  have cfgs: "map name (columnConfigs (addColumnConfig (addColumnConfig (addColumnConfig initialState))))
      = [''store_id'', ''zone_name'', ''machine_project_id'']"
    by code_simp
  then obtain a b c where abc:
      "columnConfigs (addColumnConfig (addColumnConfig (addColumnConfig initialState))) = [a, b, c]"
    and names: "name a = ''store_id''" "name b = ''zone_name''" "name c = ''machine_project_id''"
    by auto
  from assms names
  show "map name (sortedColumnConfigs localeCompare
            (addColumnConfig (addColumnConfig (addColumnConfig initialState))))
     = [''machine_project_id'', ''store_id'', ''zone_name'']"
    by (simp add: sortedColumnConfigs_def sort_with_def abc)
next
  show "map_sum id configNames
         (removeColumnConfig (addColumnConfig (addColumnConfig (addColumnConfig initialState))) 0)
     = Inr [''zone_name'', ''machine_project_id'']"
    by code_simp
next
  show "map_sum id configNames
         (handleColumnSelect (addColumnConfig (addColumnConfig (addColumnConfig initialState))) 0
            ''location'')
     = Inr [''location'', ''zone_name'', ''machine_project_id'']"
    by code_simp
next
  show "map_sum id (\<lambda>s. map (\<lambda>c. (name c, type (validation c))) (columnConfigs s))
         (updateValidation (addColumnConfig (addColumnConfig (addColumnConfig initialState))) 0
            \<lparr> p_type = Given (Some TInteger), p_regex = Omitted, p_allowedValues = Omitted,
              p_min = Omitted, p_max = Omitted \<rparr>)
     = Inr [(''store_id'', Some TInteger), (''zone_name'', Some TString),
            (''machine_project_id'', Some TString)]"
    by code_simp
qed

text \<open>
  The comparison of names code unit by code unit is such a collation.
\<close>

theorem index_resolved_witness:
  "(if ''zone_name'' < ''machine_project_id'' then - 1
    else if ''zone_name'' = ''machine_project_id'' then 0 else (1::int)) > 0
   \<and> (if ''store_id'' < ''machine_project_id'' then - 1
       else if ''store_id'' = ''machine_project_id'' then 0 else (1::int)) > 0
   \<and> (if ''store_id'' < ''zone_name'' then - 1
       else if ''store_id'' = ''zone_name'' then 0 else (1::int)) < 0
   \<and> map name (sortedColumnConfigs (\<lambda>a b. if a < b then - 1 else if a = b then 0 else 1)
            (addColumnConfig (addColumnConfig (addColumnConfig initialState))))
     = [''machine_project_id'', ''store_id'', ''zone_name'']
   \<and> map_sum id configNames
         (removeColumnConfig (addColumnConfig (addColumnConfig (addColumnConfig initialState))) 0)
     = Inr [''zone_name'', ''machine_project_id'']
   \<and> map_sum id configNames
         (handleColumnSelect (addColumnConfig (addColumnConfig (addColumnConfig initialState))) 0
            ''location'')
     = Inr [''location'', ''zone_name'', ''machine_project_id'']
   \<and> map_sum id (\<lambda>s. map (\<lambda>c. (name c, type (validation c))) (columnConfigs s))
         (updateValidation (addColumnConfig (addColumnConfig (addColumnConfig initialState))) 0
            \<lparr> p_type = Given (Some TInteger), p_regex = Omitted, p_allowedValues = Omitted,
              p_min = Omitted, p_max = Omitted \<rparr>)
     = Inr [(''store_id'', Some TInteger), (''zone_name'', Some TString),
            (''machine_project_id'', Some TString)]"
proof -
  let ?cmp = "\<lambda>a b :: string. if a < b then - 1 else if a = b then 0 else (1::int)"
  have h1: "?cmp ''zone_name'' ''machine_project_id'' > 0" by simp
  have h2: "?cmp ''store_id'' ''machine_project_id'' > 0" by simp
  have h3: "?cmp ''store_id'' ''zone_name'' < 0" by simp
  from h1 h2 h3 index_resolved_in_insertion_order [of ?cmp, OF h1 h2 h3]
  show ?thesis by (intro conjI) (elim conjE, assumption)+
qed

section \<open>The order of the pool\<close>

lemma sorted_pool_add:
  "sorted (availableColumns s) \<Longrightarrow> sorted (availableColumns (addColumnConfig s))"
  by (cases "availableColumns s") (simp_all add: addColumnConfig_def)

lemma sorted_pool_remove:
  "removeColumnConfig s i = Inr s' \<Longrightarrow> sorted (availableColumns s')"
  by (auto simp: removeColumnConfig_def Let_def split: option.splits)

lemma sorted_pool_rename:
  "handleColumnSelect s i n = Inr s' \<Longrightarrow> sorted (availableColumns s')"
  by (auto simp: handleColumnSelect_def Let_def split: option.splits)

lemma sorted_pool_step:
  "apply_operation s x = Inr s' \<Longrightarrow> sorted (availableColumns s) \<or> x \<noteq> AddColumn
   \<Longrightarrow> sorted (availableColumns s')"
  by (cases x) (auto intro: sorted_pool_add sorted_pool_remove sorted_pool_rename)

lemma sorted_pool_run:
  "run_operations s xs = Inr s'
   \<Longrightarrow> sorted (availableColumns s) \<or> (\<exists>x\<in>set xs. x \<noteq> AddColumn)
   \<Longrightarrow> sorted (availableColumns s')"
proof (induction xs arbitrary: s)
  case Nil
  then show ?case by simp
next
  case (Cons x xs)
  from Cons.prems(1) obtain s1 where s1: "apply_operation s x = Inr s1"
    and rest: "run_operations s1 xs = Inr s'"
    by (auto split: sum.splits)
  show ?case
  proof (cases "sorted (availableColumns s) \<or> x \<noteq> AddColumn")
    case True
    with s1 have "sorted (availableColumns s1)" by (rule sorted_pool_step)
    with Cons.IH [OF rest] show ?thesis by blast
  next
    case False
    with Cons.prems(2) have "\<exists>x\<in>set xs. x \<noteq> AddColumn" by auto
    with Cons.IH [OF rest] show ?thesis by blast
  qed
qed

lemma sorted_hd_least: "sorted xs \<Longrightarrow> n \<in> set xs \<Longrightarrow> hd xs \<le> n"
  by (cases xs) auto

text \<open>
  Claim C10: \<open>removeColumn\<close> and \<open>renameColumn\<close> leave the pool sorted in ascending order;
  \<open>addColumn\<close> turns the pool into its tail, so the remaining names keep their order.
  Consequently, after any sequence of operations that contains a \<open>removeColumn\<close> or a
  \<open>renameColumn\<close>, the pool is sorted and the name that \<open>addColumn\<close> claims next is
  the least name of the pool. (For example, a removal right after the first
  \<open>addColumn\<close> makes the next claim \<open>cluster_ipv4_cidr\<close>, where the original order had
  \<open>zone_name\<close> next.)
\<close>

theorem pool_sorted_after_remove_or_rename:
  "(removeColumnConfig s i = Inr s' \<longrightarrow> sorted (availableColumns s'))
   \<and> (handleColumnSelect s i n = Inr s' \<longrightarrow> sorted (availableColumns s'))
   \<and> availableColumns (addColumnConfig s) = tl (availableColumns s)
   \<and> (run_operations s0 ops = Inr t \<and> (\<exists>x\<in>set ops. x \<noteq> AddColumn)
        \<and> availableColumns t \<noteq> [] \<longrightarrow>
        sorted (availableColumns t)
        \<and> map name (columnConfigs (addColumnConfig t))
            = map name (columnConfigs t) @ [hd (availableColumns t)]
        \<and> (\<forall>m\<in>set (availableColumns t). hd (availableColumns t) \<le> m))"
proof (intro conjI impI)
  show "availableColumns (addColumnConfig s) = tl (availableColumns s)"
    by (cases "availableColumns s") (simp_all add: addColumnConfig_def)
next
  assume "removeColumnConfig s i = Inr s'"
  then show "sorted (availableColumns s')" by (rule sorted_pool_remove)
next
  assume "handleColumnSelect s i n = Inr s'"
  then show "sorted (availableColumns s')" by (rule sorted_pool_rename)
next
  assume a: "run_operations s0 ops = Inr t \<and> (\<exists>x\<in>set ops. x \<noteq> AddColumn)
        \<and> availableColumns t \<noteq> []"
  then show srt: "sorted (availableColumns t)" using sorted_pool_run by blast
  from a show "map name (columnConfigs (addColumnConfig t))
            = map name (columnConfigs t) @ [hd (availableColumns t)]"
    by (simp add: addColumnConfig_def)
  from srt show "\<forall>m\<in>set (availableColumns t). hd (availableColumns t) \<le> m"
    using sorted_hd_least by blast
qed

theorem pool_sorted_witness:
  "(\<exists>t. run_operations initialState [AddColumn, RemoveColumn 0] = Inr t
        \<and> availableColumns t \<noteq> []
        \<and> sorted (availableColumns t)
        \<and> hd (availableColumns t) = ''cluster_ipv4_cidr''
        \<and> map name (columnConfigs (addColumnConfig t)) = [''cluster_ipv4_cidr''])
   \<and> availableColumns (addColumnConfig initialState) ! 0 = ''zone_name''
   \<and> (\<exists>s'. removeColumnConfig (addColumnConfig initialState) 0 = Inr s'
        \<and> sorted (availableColumns s'))
   \<and> (\<exists>s'. handleColumnSelect (addColumnConfig initialState) 0 ''location'' = Inr s'
        \<and> sorted (availableColumns s'))"
proof -
  let ?ops = "[AddColumn, RemoveColumn 0]"
  let ?s1 = "addColumnConfig initialState"
  have "operations_ok initialState ?ops" by code_simp
  with store_inv_initialState obtain t where t: "run_operations initialState ?ops = Inr t"
    using store_inv_run by blast
  then have rm: "removeColumnConfig ?s1 0 = Inr t" by (simp split: sum.splits)
  have "operation_ok ?s1 (RenameColumn 0 ''location'')" by code_simp
  then obtain s2 where s2: "handleColumnSelect ?s1 0 ''location'' = Inr s2"
    using operation_ok_succeeds by fastforce
  have ev: "map_sum id (\<lambda>s. (availableColumns s \<noteq> [], hd (availableColumns s), map name (columnConfigs s)))
              (run_operations initialState ?ops) = Inr (True, ''cluster_ipv4_cidr'', [])"
    by code_simp
  with t have ne: "availableColumns t \<noteq> []" and h: "hd (availableColumns t) = ''cluster_ipv4_cidr''"
    and nm: "map name (columnConfigs t) = []"
    by simp_all
  have ex: "\<exists>x\<in>set ?ops. x \<noteq> AddColumn" by simp
  note thm1 = pool_sorted_after_remove_or_rename [of ?s1 0 t "''location''" initialState ?ops t]
  note thm2 = pool_sorted_after_remove_or_rename [of ?s1 0 s2 "''location''" initialState ?ops t]
  from thm1 [THEN conjunct1] rm have p3: "sorted (availableColumns t)" by simp
  from thm2 [THEN conjunct2, THEN conjunct1] s2 have p4: "sorted (availableColumns s2)" by simp
  from thm1 [THEN conjunct2, THEN conjunct2, THEN conjunct2] t ex ne
  have "map name (columnConfigs (addColumnConfig t))
            = map name (columnConfigs t) @ [hd (availableColumns t)]"
    by simp
  with h nm have p1: "map name (columnConfigs (addColumnConfig t)) = [''cluster_ipv4_cidr'']"
    by simp
  have p2: "availableColumns ?s1 ! 0 = ''zone_name''" by code_simp
  have e1: "\<exists>t. run_operations initialState ?ops = Inr t
        \<and> availableColumns t \<noteq> []
        \<and> sorted (availableColumns t)
        \<and> hd (availableColumns t) = ''cluster_ipv4_cidr''
        \<and> map name (columnConfigs (addColumnConfig t)) = [''cluster_ipv4_cidr'']"
    using t ne p3 h p1 by (intro exI [of _ t] conjI)
  have e2: "\<exists>s'. removeColumnConfig ?s1 0 = Inr s' \<and> sorted (availableColumns s')"
    using rm p3 by (intro exI [of _ t] conjI)
  have e3: "\<exists>s'. handleColumnSelect ?s1 0 ''location'' = Inr s' \<and> sorted (availableColumns s')"
    using s2 p4 by (intro exI [of _ s2] conjI)
  from e1 p2 e2 e3 show ?thesis by (intro conjI)
qed

section \<open>Updating a validation rule\<close>

lemma updateValidation_in_range:
  assumes "0 \<le> i" "i < int (length (columnConfigs s))"
  shows "updateValidation s i pr =
           Inr (s \<lparr> columnConfigs := (columnConfigs s)
                       [nat i := \<lparr> name = name (columnConfigs s ! nat i),
                                   validation = spread_validation
                                     (validation (columnConfigs s ! nat i)) (Some pr) \<rparr>],
                     configSaved := False \<rparr>)"
  using assms
  by (simp add: updateValidation_def updateColumnConfig_def at_index_in_range set_index_def
        spread_def)

text \<open>
  Claim C5: for an index in range of \<open>columnConfigs\<close>, \<open>updateValidation\<close> succeeds and
  merges the partial rule into the rule at that index, property by property: a property
  given in the partial rule takes the given value, a property left out keeps the value
  it had. The name of that configuration, every other configuration and the pool stay
  as they were.
\<close>

theorem updateValidation_shallow_merge:
  assumes "0 \<le> i" and "i < int (length (columnConfigs s))"
  shows "\<exists>s'. updateValidation s i pr = Inr s'
     \<and> availableColumns s' = availableColumns s
     \<and> length (columnConfigs s') = length (columnConfigs s)
     \<and> (\<forall>j. j \<noteq> nat i \<longrightarrow> columnConfigs s' ! j = columnConfigs s ! j)
     \<and> name (columnConfigs s' ! nat i) = name (columnConfigs s ! nat i)
     \<and> type (validation (columnConfigs s' ! nat i)) =
         (case p_type pr of Omitted \<Rightarrow> type (validation (columnConfigs s ! nat i))
          | Given v \<Rightarrow> v)
     \<and> regex (validation (columnConfigs s' ! nat i)) =
         (case p_regex pr of Omitted \<Rightarrow> regex (validation (columnConfigs s ! nat i))
          | Given v \<Rightarrow> v)
     \<and> allowedValues (validation (columnConfigs s' ! nat i)) =
         (case p_allowedValues pr of
            Omitted \<Rightarrow> allowedValues (validation (columnConfigs s ! nat i))
          | Given v \<Rightarrow> v)
     \<and> min_val (validation (columnConfigs s' ! nat i)) =
         (case p_min pr of Omitted \<Rightarrow> min_val (validation (columnConfigs s ! nat i))
          | Given v \<Rightarrow> v)
     \<and> max_val (validation (columnConfigs s' ! nat i)) =
         (case p_max pr of Omitted \<Rightarrow> max_val (validation (columnConfigs s ! nat i))
          | Given v \<Rightarrow> v)"
proof -
  from assms have rng: "nat i < length (columnConfigs s)" by simp
  show ?thesis
    unfolding updateValidation_in_range [OF assms]
    using rng by (simp add: spread_validation_def spread_def)
qed

theorem updateValidation_witness:
  "(0::int) \<le> 0 \<and> (0::int) < int (length (columnConfigs (addColumnConfig initialState)))
   \<and> (\<exists>s'. updateValidation (addColumnConfig initialState) 0
              \<lparr> p_type = Given (Some TInteger), p_regex = Omitted, p_allowedValues = Omitted,
                p_min = Given (Some (number_of_int 0)), p_max = Omitted \<rparr> = Inr s'
         \<and> availableColumns s' = availableColumns (addColumnConfig initialState)
         \<and> name (columnConfigs s' ! 0) = ''store_id''
         \<and> type (validation (columnConfigs s' ! 0)) = Some TInteger
         \<and> regex (validation (columnConfigs s' ! 0)) = None
         \<and> min_val (validation (columnConfigs s' ! 0)) = Some (number_of_int 0)
         \<and> max_val (validation (columnConfigs s' ! 0)) = None)"
proof -
  let ?s = "addColumnConfig initialState"
  let ?pr = "\<lparr> p_type = Given (Some TInteger), p_regex = Omitted, p_allowedValues = Omitted,
                p_min = Given (Some (number_of_int 0)), p_max = Omitted \<rparr>"
  have len: "length (columnConfigs ?s) = 1" by code_simp
  have old: "columnConfigs ?s ! 0 =
      \<lparr> name = ''store_id'',
        validation = \<lparr> type = Some TString, regex = None, allowedValues = None,
                       min_val = None, max_val = None \<rparr> \<rparr>"
    by code_simp
  have h1: "(0::int) \<le> 0" by simp
  have h2: "(0::int) < int (length (columnConfigs ?s))" using len by simp
  from updateValidation_shallow_merge [OF h1 h2, of ?pr]
  obtain s' where "updateValidation ?s 0 ?pr = Inr s'"
     and "availableColumns s' = availableColumns ?s"
     and "name (columnConfigs s' ! 0) = name (columnConfigs ?s ! 0)"
     and "type (validation (columnConfigs s' ! 0)) = Some TInteger"
     and "regex (validation (columnConfigs s' ! 0)) = regex (validation (columnConfigs ?s ! 0))"
     and "min_val (validation (columnConfigs s' ! 0)) = Some (number_of_int 0)"
     and "max_val (validation (columnConfigs s' ! 0)) = max_val (validation (columnConfigs ?s ! 0))"
    by auto
  with old h2 show ?thesis by (intro conjI exI [of _ s']) simp_all
qed

section \<open>Renaming a column\<close>

lemma handleColumnSelect_in_range:
  assumes "0 \<le> i" "i < int (length (columnConfigs s))"
  shows "handleColumnSelect s i n =
           Inr (s \<lparr> columnConfigs := (columnConfigs s)
                       [nat i := (columnConfigs s ! nat i) \<lparr> name := n \<rparr>],
                     availableColumns :=
                       sort (filter (\<lambda>col. col \<noteq> n) (availableColumns s)
                             @ [name (columnConfigs s ! nat i)]),
                     configSaved := False \<rparr>)"
  using assms by (simp add: handleColumnSelect_def at_index_in_range set_index_def)

text \<open>
  Claim C6: for an index in range of \<open>columnConfigs\<close> and a new name that is in the pool,
  \<open>handleColumnSelect\<close> succeeds; the configuration at the index takes the new name and
  keeps its rule, every other configuration stays as it was, and the pool loses the new
  name and gains the previous one. In a state that satisfies the invariant of the store
  the membership is swapped exactly: the new name is configured and no longer pooled,
  the previous name is pooled and no longer configured.
\<close>

theorem renameColumn_swaps_membership:
  assumes "0 \<le> i" and "i < int (length (columnConfigs s))"
    and "newName \<in> set (availableColumns s)"
  shows "\<exists>s'. handleColumnSelect s i newName = Inr s'
     \<and> columnConfigs s' =
         (columnConfigs s) [nat i := (columnConfigs s ! nat i) \<lparr> name := newName \<rparr>]
     \<and> name (columnConfigs s' ! nat i) = newName
     \<and> validation (columnConfigs s' ! nat i) = validation (columnConfigs s ! nat i)
     \<and> (\<forall>j. j \<noteq> nat i \<longrightarrow> columnConfigs s' ! j = columnConfigs s ! j)
     \<and> set (availableColumns s') =
         insert (name (columnConfigs s ! nat i)) (set (availableColumns s) - {newName})
     \<and> (store_inv s \<longrightarrow>
          newName \<notin> set (availableColumns s') \<and> newName \<in> set (configNames s')
          \<and> name (columnConfigs s ! nat i) \<in> set (availableColumns s')
          \<and> name (columnConfigs s ! nat i) \<notin> set (configNames s')
          \<and> set (configNames s') =
              insert newName (set (configNames s) - {name (columnConfigs s ! nat i)}))"
proof -
  let ?old = "name (columnConfigs s ! nat i)"
  let ?s' = "s \<lparr> columnConfigs := (columnConfigs s)
                       [nat i := (columnConfigs s ! nat i) \<lparr> name := newName \<rparr>],
                     availableColumns :=
                       sort (filter (\<lambda>col. col \<noteq> newName) (availableColumns s) @ [?old]),
                     configSaved := False \<rparr>"
  from assms have rng: "nat i < length (columnConfigs s)" by simp
  have run: "handleColumnSelect s i newName = Inr ?s'"
    using assms(1,2) by (rule handleColumnSelect_in_range)
  have cfg: "columnConfigs ?s' =
         (columnConfigs s) [nat i := (columnConfigs s ! nat i) \<lparr> name := newName \<rparr>]"
    by simp
  have at: "name (columnConfigs ?s' ! nat i) = newName
      \<and> validation (columnConfigs ?s' ! nat i) = validation (columnConfigs s ! nat i)"
    using rng by simp
  have others: "\<forall>j. j \<noteq> nat i \<longrightarrow> columnConfigs ?s' ! j = columnConfigs s ! j"
    by simp
  have pool: "set (availableColumns ?s') = insert ?old (set (availableColumns s) - {newName})"
    by auto
  have inv: "store_inv s \<longrightarrow>
          newName \<notin> set (availableColumns ?s') \<and> newName \<in> set (configNames ?s')
          \<and> ?old \<in> set (availableColumns ?s') \<and> ?old \<notin> set (configNames ?s')
          \<and> set (configNames ?s') = insert newName (set (configNames s) - {?old})"
  proof
    assume si: "store_inv s"
    have names: "configNames ?s' = (configNames s)[nat i := newName]"
      by (simp add: configNames_def map_update)
    have oldn: "?old = configNames s ! nat i" using rng by (simp add: configNames_def)
    from rng have rng': "nat i < length (configNames s)" by (simp add: configNames_def)
    from si have d: "distinct (configNames s)" by (simp add: store_inv_def)
    have "set ((configNames s)[nat i := newName])
            = insert newName (set (configNames s) - {configNames s ! nat i})"
      using d rng' by (rule set_update_distinct)
    then have sn: "set (configNames ?s') = insert newName (set (configNames s) - {?old})"
      unfolding names using oldn by simp
    have mem: "?old \<in> set (configNames s)" unfolding oldn using rng' by simp
    from si assms(3) have "newName \<notin> set (configNames s)" by (auto simp: store_inv_def)
    with mem have neq: "?old \<noteq> newName" by auto
    from sn pool neq show "newName \<notin> set (availableColumns ?s') \<and> newName \<in> set (configNames ?s')
          \<and> ?old \<in> set (availableColumns ?s') \<and> ?old \<notin> set (configNames ?s')
          \<and> set (configNames ?s') = insert newName (set (configNames s) - {?old})"
      by auto
  qed
  from run cfg at others pool inv show ?thesis
    by (intro exI [of _ ?s']) (intro conjI, simp_all only: simp_thms)
qed

theorem renameColumn_witness:
  "(0::int) \<le> 1
   \<and> (1::int) < int (length (columnConfigs (addColumnConfig (addColumnConfig initialState))))
   \<and> ''location'' \<in> set (availableColumns (addColumnConfig (addColumnConfig initialState)))
   \<and> store_inv (addColumnConfig (addColumnConfig initialState))
   \<and> (\<exists>s'. handleColumnSelect (addColumnConfig (addColumnConfig initialState)) 1 ''location''
              = Inr s'
         \<and> map name (columnConfigs s') = [''store_id'', ''location'']
         \<and> ''location'' \<notin> set (availableColumns s')
         \<and> ''zone_name'' \<in> set (availableColumns s')
         \<and> ''zone_name'' \<notin> set (configNames s'))"
proof -
  let ?s = "addColumnConfig (addColumnConfig initialState)"
  have h1: "(0::int) \<le> 1" by simp
  have h2: "(1::int) < int (length (columnConfigs ?s))" by code_simp
  have h3: "''location'' \<in> set (availableColumns ?s)" by code_simp
  have inv: "store_inv ?s"
    by (intro store_inv_add store_inv_initialState)
  have old: "name (columnConfigs ?s ! nat 1) = ''zone_name''" by code_simp
  have new: "map name ((columnConfigs ?s) [nat 1 := (columnConfigs ?s ! nat 1) \<lparr> name := ''location'' \<rparr>])
               = [''store_id'', ''location'']"
    by code_simp
  from renameColumn_swaps_membership [OF h1 h2 h3]
  obtain s' where run: "handleColumnSelect ?s 1 ''location'' = Inr s'"
    and cfg: "columnConfigs s' =
         (columnConfigs ?s) [nat 1 := (columnConfigs ?s ! nat 1) \<lparr> name := ''location'' \<rparr>]"
    and sw: "store_inv ?s \<longrightarrow>
          ''location'' \<notin> set (availableColumns s') \<and> ''location'' \<in> set (configNames s')
          \<and> name (columnConfigs ?s ! nat 1) \<in> set (availableColumns s')
          \<and> name (columnConfigs ?s ! nat 1) \<notin> set (configNames s')
          \<and> set (configNames s') =
              insert ''location'' (set (configNames ?s) - {name (columnConfigs ?s ! nat 1)})"
    by blast
  from sw inv have c: "''location'' \<notin> set (availableColumns s') \<and> ''location'' \<in> set (configNames s')
          \<and> name (columnConfigs ?s ! nat 1) \<in> set (availableColumns s')
          \<and> name (columnConfigs ?s ! nat 1) \<notin> set (configNames s')
          \<and> set (configNames s') =
              insert ''location'' (set (configNames ?s) - {name (columnConfigs ?s ! nat 1)})"
    by (rule mp)
  note c' = c [unfolded old]
  from c' have p1: "''location'' \<notin> set (availableColumns s')" by (elim conjE)
  from c' have p2: "''zone_name'' \<in> set (availableColumns s')" by (elim conjE)
  from c' have p3: "''zone_name'' \<notin> set (configNames s')" by (elim conjE)
  note p = p1 p2 p3
  have q: "map name (columnConfigs s') = [''store_id'', ''location'']"
    by (simp only: cfg new)
  have "\<exists>s'. handleColumnSelect ?s 1 ''location'' = Inr s'
         \<and> map name (columnConfigs s') = [''store_id'', ''location'']
         \<and> ''location'' \<notin> set (availableColumns s')
         \<and> ''zone_name'' \<in> set (availableColumns s')
         \<and> ''zone_name'' \<notin> set (configNames s')"
    using run q p by (intro exI [of _ s'] conjI)
  with h1 h2 h3 inv show ?thesis by (intro conjI)
qed

section \<open>The object that the emitter fills\<close>

lemma config_object_snoc:
  "config_object (cs @ [c]) = set_property (config_object cs) (name c) (validation c)"
  by (simp add: config_object_def)

lemma keys_assign_property:
  "map fst (assign_property ps k v) =
     (if k \<in> set (map fst ps) then map fst ps else map fst ps @ [k])"
  by (induction ps k v rule: assign_property.induct) auto

lemma filter_assign_property:
  "distinct (map fst ps) \<Longrightarrow>
   filter (\<lambda>e. fst e = n) (assign_property ps k v) =
     (if n = k then [(k, v)] else filter (\<lambda>e. fst e = n) ps)"
proof (induction ps k v rule: assign_property.induct)
  case (1 k v)
  then show ?case by simp
next
  case (2 k' v' ps k v)
  have none: "k' \<notin> fst ` set ps \<Longrightarrow> filter (\<lambda>e. fst e = k') ps = []"
    by (auto simp: filter_empty_conv)
  from 2 none show ?case by auto
qed

lemma assign_property_fresh:
  "k \<notin> set (map fst ps) \<Longrightarrow> assign_property ps k v = ps @ [(k, v)]"
  by (induction ps k v rule: assign_property.induct) auto

lemma key_set_assign_property:
  "fst ` set (assign_property ps k v) = insert k (fst ` set ps)"
proof -
  have "set (map fst (assign_property ps k v)) = insert k (set (map fst ps))"
    unfolding keys_assign_property by auto
  then show ?thesis by simp
qed

lemma distinct_keys_assign_property:
  "distinct (map fst ps) \<Longrightarrow> distinct (map fst (assign_property ps k v))"
  unfolding keys_assign_property by simp

lemma keys_config_object:
  "distinct (map fst (config_object cs))
   \<and> set (map fst (config_object cs)) = name ` set cs - {''__proto__''}"
proof (induction cs rule: rev_induct)
  case Nil
  then show ?case by (simp add: config_object_def)
next
  case (snoc c cs)
  then have d: "distinct (map fst (config_object cs))"
    and k: "fst ` set (config_object cs) = name ` set cs - {''__proto__''}"
    by simp_all
  show ?case
  proof (cases "name c = ''__proto__''")
    case True
    with d k show ?thesis by (auto simp: config_object_snoc set_property_def)
  next
    case False
    have "distinct (map fst (assign_property (config_object cs) (name c) (validation c)))"
      using d by (rule distinct_keys_assign_property)
    moreover have "fst ` set (assign_property (config_object cs) (name c) (validation c))
        = name ` set (cs @ [c]) - {''__proto__''}"
      unfolding key_set_assign_property k using False by auto
    ultimately show ?thesis
      using False by (simp add: config_object_snoc set_property_def)
  qed
qed

lemma object_for_name:
  "n \<in> name ` set cs \<Longrightarrow> n \<noteq> ''__proto__'' \<Longrightarrow>
   filter (\<lambda>e. fst e = n) (config_object cs) =
     [(n, validation (last (filter (\<lambda>c. name c = n) cs)))]"
proof (induction cs rule: rev_induct)
  case Nil
  then show ?case by simp
next
  case (snoc c cs)
  have d: "distinct (map fst (config_object cs))" using keys_config_object by blast
  show ?case
  proof (cases "name c = n")
    case True
    with snoc.prems(2) show ?thesis
      by (simp add: config_object_snoc set_property_def filter_assign_property [OF d])
  next
    case False
    with snoc.prems have "n \<in> name ` set cs" by auto
    with snoc.IH snoc.prems(2) False show ?thesis
      by (simp add: config_object_snoc set_property_def filter_assign_property [OF d])
  qed
qed

lemma set_Object_entries: "set (Object_entries ps) = set ps"
  by (auto simp: Object_entries_def)

lemma distinct_keys_Object_entries:
  assumes "distinct (map fst ps)"
  shows "distinct (map fst (Object_entries ps))"
proof -
  from assms have d: "distinct ps" and inj: "inj_on fst (set ps)"
    by (simp_all add: distinct_map)
  have "distinct (Object_entries ps)"
    using d by (auto simp: Object_entries_def)
  moreover have "inj_on fst (set (Object_entries ps))"
    using inj by (simp add: set_Object_entries)
  ultimately show ?thesis by (simp add: distinct_map)
qed

lemma filter_key_distinct:
  "distinct (map fst xs) \<Longrightarrow> (n, r) \<in> set xs \<Longrightarrow> filter (\<lambda>e. fst e = n) xs = [(n, r)]"
proof (induction xs)
  case Nil
  then show ?case by simp
next
  case (Cons x xs)
  have none: "n \<notin> fst ` set xs \<Longrightarrow> filter (\<lambda>e. fst e = n) xs = []"
    by (auto simp: filter_empty_conv)
  from Cons none show ?case by (cases x) force
qed

lemma keys_config_entries:
  "distinct (map fst (config_entries cs))
   \<and> set (map fst (config_entries cs)) = name ` set cs - {''__proto__''}"
  using keys_config_object [of cs] distinct_keys_Object_entries [of "config_object cs"]
  by (simp add: config_entries_def set_Object_entries)

lemma entries_for_name:
  assumes "n \<in> name ` set cs" and "n \<noteq> ''__proto__''"
  shows "filter (\<lambda>e. fst e = n) (config_entries cs) =
     [(n, validation (last (filter (\<lambda>c. name c = n) cs)))]"
proof -
  let ?e = "(n, validation (last (filter (\<lambda>c. name c = n) cs)))"
  from object_for_name [OF assms]
  have "?e \<in> set (filter (\<lambda>e. fst e = n) (config_object cs))" by simp
  then have "?e \<in> set (config_entries cs)"
    by (simp add: config_entries_def set_Object_entries)
  moreover have "distinct (map fst (config_entries cs))" using keys_config_entries by blast
  ultimately show ?thesis by (rule filter_key_distinct [rotated])
qed

lemma singleton_filter_split:
  assumes "filter P xs = [x]"
  shows "\<exists>before after. xs = before @ [x] @ after
           \<and> list_all (\<lambda>y. \<not> P y) before \<and> list_all (\<lambda>y. \<not> P y) after"
proof -
  from assms obtain us vs where xs: "xs = us @ x # vs" and us: "\<forall>u\<in>set us. \<not> P u"
    and "P x" and vs: "filter P vs = []"
    by (auto simp: filter_eq_Cons_iff)
  from vs have "\<forall>v\<in>set vs. \<not> P v" by (simp add: filter_empty_conv)
  with xs us show ?thesis by (auto simp: list_all_iff)
qed

lemma Object_entries_plain:
  "list_all (\<lambda>e. \<not> is_array_index (fst e)) ps \<Longrightarrow> Object_entries ps = ps"
  by (simp add: Object_entries_def list_all_iff filter_empty_conv filter_id_conv)

lemma config_object_distinct:
  "distinct (map name cs) \<Longrightarrow> list_all (\<lambda>c. name c \<noteq> ''__proto__'') cs
   \<Longrightarrow> config_object cs = map (\<lambda>c. (name c, validation c)) cs"
proof (induction cs rule: rev_induct)
  case Nil
  then show ?case by (simp add: config_object_def)
next
  case (snoc c cs)
  then have eq: "config_object cs = map (\<lambda>c. (name c, validation c)) cs"
    and fresh: "name c \<notin> set (map fst (map (\<lambda>c. (name c, validation c)) cs))"
    and np: "name c \<noteq> ''__proto__''"
    by (auto simp: comp_def)
  show ?case
    unfolding config_object_snoc eq set_property_def assign_property_fresh [OF fresh]
    using np by simp
qed

lemma config_entries_distinct:
  assumes "distinct (map name cs)"
    and "list_all (\<lambda>c. name c \<noteq> ''__proto__'' \<and> \<not> is_array_index (name c)) cs"
  shows "config_entries cs = map (\<lambda>c. (name c, validation c)) cs"
proof -
  from assms(2) have np: "list_all (\<lambda>c. name c \<noteq> ''__proto__'') cs"
    and ni: "list_all (\<lambda>e. \<not> is_array_index (fst e)) (map (\<lambda>c. (name c, validation c)) cs)"
    by (simp_all add: list_all_iff)
  show ?thesis
    unfolding config_entries_def config_object_distinct [OF assms(1) np]
    using ni by (rule Object_entries_plain)
qed

lemmas entries_eval = config_entries_def config_object_def Object_entries_def set_property_def
  is_array_index_def is_digit_def string_to_nat_def less_eq_char_def

text \<open>
  Array indices come first, by their value; a name with a leading zero is not one.
\<close>

lemma config_entries_index_order: "map fst (config_entries
     [\<lparr> name = ''10'', validation = \<lparr> type = None, regex = None, allowedValues = None,
          min_val = None, max_val = None \<rparr> \<rparr>,
      \<lparr> name = ''b'', validation = \<lparr> type = None, regex = None, allowedValues = None,
          min_val = None, max_val = None \<rparr> \<rparr>,
      \<lparr> name = ''2'', validation = \<lparr> type = None, regex = None, allowedValues = None,
          min_val = None, max_val = None \<rparr> \<rparr>,
      \<lparr> name = ''01'', validation = \<lparr> type = None, regex = None, allowedValues = None,
          min_val = None, max_val = None \<rparr> \<rparr>]) = [''2'', ''10'', ''b'', ''01'']"
  by (simp add: entries_eval)

lemma is_array_index_examples: "is_array_index ''4294967294'' \<and> \<not> is_array_index ''4294967295'' \<and> is_array_index ''0''
   \<and> \<not> is_array_index ''-1'' \<and> \<not> is_array_index '''' \<and> \<not> is_array_index ''1e3''"
  by (simp add: entries_eval)

section \<open>The lines of the document\<close>

lemma lines_of_Nil: "lines_of [] = [[]]"
  by (simp add: lines_of.simps)

lemma lines_of_nonempty: "lines_of s \<noteq> []"
  by (induction s) (auto simp: lines_of.simps split: list.splits)

lemma lines_of_newline: "lines_of (a @ CHR 0x0A # b) = lines_of a @ lines_of b"
proof (induction a)
  case Nil
  show ?case by (simp add: lines_of.simps)
next
  case (Cons c a)
  obtain l ls where l: "lines_of a = l # ls"
    using lines_of_nonempty [of a] by (cases "lines_of a") auto
  with Cons show ?case by (simp add: lines_of.simps)
qed

lemma lines_of_single: "CHR 0x0A \<notin> set a \<Longrightarrow> lines_of a = [a]"
  by (induction a) (auto simp: lines_of.simps)

lemma lines_of_join:
  "lines_of (join [CHR 0x0A] xs) = (if xs = [] then [[]] else concat (map lines_of xs))"
  by (induction "[CHR 0x0A]" xs rule: join.induct) (simp_all add: lines_of_Nil lines_of_newline)

lemma no_newline_type: "CHR 0x0A \<notin> set (type_to_string t)"
  by (cases t) (simp_all add: type_to_string_def)

lemma hex_digit_code: "d < 16 \<Longrightarrow> of_char (hex_digit d) = (if d < 10 then 48 + d else 87 + d)"
  by (simp add: hex_digit_def)

lemma hex_digit_not: "d < 16 \<Longrightarrow> hex_digit d \<noteq> CHR 0x0A"
proof
  assume d: "d < 16" and "hex_digit d = CHR 0x0A"
  then have "(of_char (hex_digit d) :: nat) = of_char (CHR 0x0A)" by simp
  with d show False by (simp add: hex_digit_code split: if_splits)
qed

lemma no_newline_escape: "CHR 0x0A \<notin> set (json_escape_char c)"
proof -
  have "(of_char c :: nat) < 32 \<Longrightarrow> (of_char c :: nat) div 16 < 16" by presburger
  then have hi: "(of_char c :: nat) < 32 \<Longrightarrow> CHR 0x0A \<noteq> hex_digit (of_char c div 16)"
    using hex_digit_not [of "of_char c div 16"] by auto
  have lo: "CHR 0x0A \<noteq> hex_digit (of_char c mod 16)"
    using hex_digit_not [of "of_char c mod 16"] by auto
  show ?thesis
    using hi lo by (auto simp: json_escape_char_def)
qed

lemma set_join: "set (join sep xs) \<subseteq> set sep \<union> \<Union> (set ` set xs)"
  by (induction sep xs rule: join.induct) auto

lemma no_newline_JSON: "CHR 0x0A \<notin> set (JSON_stringify vs)"
proof -
  have "CHR 0x0A \<notin> set (json_quote v)" for v
    using no_newline_escape by (auto simp: json_quote_def)
  then have "CHR 0x0A \<notin> \<Union> (set ` set (map json_quote vs))" by auto
  with set_join [of "'',''" "map json_quote vs"]
  have "CHR 0x0A \<notin> set (join '','' (map json_quote vs))" by auto
  then show ?thesis by (simp add: JSON_stringify_def)
qed

lemma last_JSON: "last (JSON_stringify vs) = CHR '']''"
  by (simp add: JSON_stringify_def)

lemma digit_char_code: "d < 10 \<Longrightarrow> (of_char (digit_char d) :: nat) = 48 + d"
  by (simp add: digit_char_def)

lemma nat_to_string_digits:
  "c \<in> set (nat_to_string n) \<Longrightarrow> 48 \<le> (of_char c :: nat) \<and> (of_char c :: nat) \<le> 57"
proof (induction n arbitrary: c rule: nat_to_string.induct)
  case (1 n)
  show ?case
  proof (cases "n < 10")
    case True
    with "1.prems" have "c = digit_char n" by (simp add: nat_to_string.simps)
    with True show ?thesis by (simp add: digit_char_code)
  next
    case False
    with "1.prems" have "c \<in> set (nat_to_string (n div 10)) \<or> c = digit_char (n mod 10)"
      by (subst (asm) nat_to_string.simps) auto
    then show ?thesis
    proof
      assume "c \<in> set (nat_to_string (n div 10))"
      with False "1.IH" show ?thesis by blast
    next
      assume "c = digit_char (n mod 10)"
      then show ?thesis by (simp add: digit_char_code)
    qed
  qed
qed

lemma nat_to_string_chars:
  "c \<in> set (nat_to_string n) \<Longrightarrow> c \<noteq> CHR 0x0A \<and> c \<noteq> CHR '':''"
proof -
  assume "c \<in> set (nat_to_string n)"
  then have "48 \<le> (of_char c :: nat) \<and> (of_char c :: nat) \<le> 57" by (rule nat_to_string_digits)
  then show ?thesis by auto
qed

lemma decimal_to_string_chars:
  assumes "c \<in> set (decimal_to_string s n)"
  shows "c \<noteq> CHR 0x0A \<and> c \<noteq> CHR '':''"
proof -
  let ?ds = "nat_to_string s"
  let ?ex = "nat_to_string (nat \<bar>n - 1\<bar>)"
  from assms have "c \<in> set ?ds \<or> c \<in> set ?ex \<or> c \<in> set ''0.e+-''"
    unfolding decimal_to_string_def Let_def
    by (auto split: if_splits dest: in_set_takeD in_set_dropD)
  then show ?thesis
    using nat_to_string_chars by auto
qed

lemma number_to_string_chars:
  assumes "c \<in> set (number_to_string x)"
  shows "c \<noteq> CHR 0x0A \<and> c \<noteq> CHR '':''"
proof (cases x)
  case NaN
  with assms show ?thesis by (auto simp: number_to_string_def)
next
  case (Infinity b)
  with assms show ?thesis by (auto simp: number_to_string_def split: if_splits)
next
  case (Decimal b s n)
  with assms have "c = CHR ''0'' \<or> c = CHR ''-'' \<or> c \<in> set (decimal_to_string s n)"
    by (auto simp: number_to_string_def split: if_splits)
  then show ?thesis
    using decimal_to_string_chars by auto
qed

lemma yaml_entry_join:
  "yaml_entry (column, rules) =
     join ''\<newline>''
       [''  '' @ column @ '':'',
        ''    type: '' @ (case type rules of Some t \<Rightarrow> type_to_string t | None \<Rightarrow> ''string''),
        ''    '' @ (case regex rules of
                     Some r \<Rightarrow> (if r \<noteq> [] then ''regex: '' @ [CHR 0x22] @ r @ [CHR 0x22] else [])
                   | None \<Rightarrow> []),
        ''    '' @ (case allowedValues rules of
                     Some vs \<Rightarrow> ''allowed_values: '' @ JSON_stringify vs
                   | None \<Rightarrow> []),
        ''    '' @ (case min_val rules of Some n \<Rightarrow> ''min: '' @ number_to_string n | None \<Rightarrow> []),
        ''    '' @ (case max_val rules of Some n \<Rightarrow> ''max: '' @ number_to_string n | None \<Rightarrow> [])]"
  by (simp add: yaml_entry_def)

lemma no_newline_number: "CHR 0x0A \<notin> set (number_to_string x)"
  using number_to_string_chars by blast

lemma no_colon_number: "CHR '':'' \<notin> set (number_to_string x)"
  using number_to_string_chars by blast

lemma lines_of_yaml_entry:
  assumes "single_line_entry (column, rules)"
  shows "lines_of (yaml_entry (column, rules)) =
       [''  '' @ column @ '':'',
        ''    type: '' @ (case type rules of Some t \<Rightarrow> type_to_string t | None \<Rightarrow> ''string''),
        ''    '' @ (case regex rules of
                     Some r \<Rightarrow> (if r \<noteq> [] then ''regex: '' @ [CHR 0x22] @ r @ [CHR 0x22] else [])
                   | None \<Rightarrow> []),
        ''    '' @ (case allowedValues rules of
                     Some vs \<Rightarrow> ''allowed_values: '' @ JSON_stringify vs
                   | None \<Rightarrow> []),
        ''    '' @ (case min_val rules of Some n \<Rightarrow> ''min: '' @ number_to_string n | None \<Rightarrow> []),
        ''    '' @ (case max_val rules of Some n \<Rightarrow> ''max: '' @ number_to_string n | None \<Rightarrow> [])]"
proof -
  from assms have c: "CHR 0x0A \<notin> set column"
    and r: "\<And>r. regex rules = Some r \<Longrightarrow> CHR 0x0A \<notin> set r"
    by (auto simp: single_line_entry_def)
  have l1: "CHR 0x0A \<notin> set (''  '' @ column @ '':'')" using c by simp
  have l2: "CHR 0x0A \<notin> set (''    type: '' @
      (case type rules of Some t \<Rightarrow> type_to_string t | None \<Rightarrow> ''string''))"
    using no_newline_type by (simp split: option.splits)
  have l3: "CHR 0x0A \<notin> set (''    '' @ (case regex rules of
                     Some r \<Rightarrow> (if r \<noteq> [] then ''regex: '' @ [CHR 0x22] @ r @ [CHR 0x22] else [])
                   | None \<Rightarrow> []))"
    using r by (simp split: option.splits)
  have l4: "CHR 0x0A \<notin> set (''    '' @ (case allowedValues rules of
                     Some vs \<Rightarrow> ''allowed_values: '' @ JSON_stringify vs
                   | None \<Rightarrow> []))"
    using no_newline_JSON by (simp split: option.splits)
  have l5: "CHR 0x0A \<notin> set (''    '' @
      (case min_val rules of Some n \<Rightarrow> ''min: '' @ number_to_string n | None \<Rightarrow> []))"
    using no_newline_number by (simp split: option.splits)
  have l6: "CHR 0x0A \<notin> set (''    '' @
      (case max_val rules of Some n \<Rightarrow> ''max: '' @ number_to_string n | None \<Rightarrow> []))"
    using no_newline_number by (simp split: option.splits)
  have "lines_of (join ''\<newline>'' [a, b, c, d, e, f])
      = lines_of a @ lines_of b @ lines_of c @ lines_of d @ lines_of e @ lines_of f"
    for a b c d e f
    by (simp add: lines_of_newline)
  then show ?thesis
    unfolding yaml_entry_join
    by (simp only: lines_of_single [OF l1] lines_of_single [OF l2] lines_of_single [OF l3]
          lines_of_single [OF l4] lines_of_single [OF l5] lines_of_single [OF l6])
       (simp only: append_Cons append_Nil)
qed

lemma not_key_line: "l = [] \<or> last l \<noteq> CHR '':'' \<Longrightarrow> l \<noteq> ''  '' @ n @ '':''"
  by auto

lemma key_line_eq: "(''  '' @ column @ '':'' = ''  '' @ n @ '':'') = (column = n)"
  by simp

lemma last_after_prefix:
  "CHR '':'' \<notin> set s \<Longrightarrow> p \<noteq> [] \<Longrightarrow> last p \<noteq> CHR '':'' \<Longrightarrow> last (p @ s) \<noteq> CHR '':''"
  by (cases "s = []") (auto simp: last_append dest: last_in_set)

lemma count_key_entry:
  assumes "single_line_entry (column, rules)"
  shows "count_list (lines_of (yaml_entry (column, rules))) (''  '' @ n @ '':'')
         = (if column = n then 1 else 0)"
proof -
  let ?key = "''  '' @ n @ '':''"
  have t: "''    type: '' @
      (case type rules of Some t \<Rightarrow> type_to_string t | None \<Rightarrow> ''string'') \<noteq> ?key"
  proof (rule not_key_line, rule disjI2)
    show "last (''    type: '' @
      (case type rules of Some t \<Rightarrow> type_to_string t | None \<Rightarrow> ''string'')) \<noteq> CHR '':''"
    proof (cases "type rules")
      case None
      then show ?thesis by simp
    next
      case (Some t)
      then show ?thesis by (cases t) (simp_all add: type_to_string_def)
    qed
  qed
  have r: "''    '' @ (case regex rules of
                     Some r \<Rightarrow> (if r \<noteq> [] then ''regex: '' @ [CHR 0x22] @ r @ [CHR 0x22] else [])
                   | None \<Rightarrow> []) \<noteq> ?key"
    by (rule not_key_line, rule disjI2) (simp split: option.splits)
  have a: "''    '' @ (case allowedValues rules of
                     Some vs \<Rightarrow> ''allowed_values: '' @ JSON_stringify vs
                   | None \<Rightarrow> []) \<noteq> ?key"
    by (rule not_key_line, rule disjI2) (simp add: JSON_stringify_def split: option.splits)
  have num: "\<And>p x. p \<noteq> [] \<Longrightarrow> last p \<noteq> CHR '':'' \<Longrightarrow> last (p @ number_to_string x) \<noteq> CHR '':''"
    using no_colon_number by (rule last_after_prefix)
  have mi: "''    '' @
      (case min_val rules of Some n \<Rightarrow> ''min: '' @ number_to_string n | None \<Rightarrow> []) \<noteq> ?key"
  proof (rule not_key_line, rule disjI2, cases "min_val rules")
    case None
    then show "last (''    '' @
      (case min_val rules of Some n \<Rightarrow> ''min: '' @ number_to_string n | None \<Rightarrow> [])) \<noteq> CHR '':''"
      by simp
  next
    case (Some x)
    have "last (''    min: '' @ number_to_string x) \<noteq> CHR '':''" by (rule num) simp_all
    with Some show "last (''    '' @
      (case min_val rules of Some n \<Rightarrow> ''min: '' @ number_to_string n | None \<Rightarrow> [])) \<noteq> CHR '':''"
      by simp
  qed
  have ma: "''    '' @
      (case max_val rules of Some n \<Rightarrow> ''max: '' @ number_to_string n | None \<Rightarrow> []) \<noteq> ?key"
  proof (rule not_key_line, rule disjI2, cases "max_val rules")
    case None
    then show "last (''    '' @
      (case max_val rules of Some n \<Rightarrow> ''max: '' @ number_to_string n | None \<Rightarrow> [])) \<noteq> CHR '':''"
      by simp
  next
    case (Some x)
    have "last (''    max: '' @ number_to_string x) \<noteq> CHR '':''" by (rule num) simp_all
    with Some show "last (''    '' @
      (case max_val rules of Some n \<Rightarrow> ''max: '' @ number_to_string n | None \<Rightarrow> [])) \<noteq> CHR '':''"
      by simp
  qed
  show ?thesis
    unfolding lines_of_yaml_entry [OF assms]
    using t r a mi ma by (simp add: key_line_eq)
qed

lemma count_key_entries:
  "list_all single_line_entry es \<Longrightarrow>
   count_list (concat (map lines_of (map yaml_entry es))) (''  '' @ n @ '':'')
     = length (filter (\<lambda>e. fst e = n) es)"
proof (induction es)
  case Nil
  then show ?case by simp
next
  case (Cons e es)
  obtain column rules where e: "e = (column, rules)" by (cases e)
  with Cons.prems have "single_line_entry (column, rules)" by simp
  from count_key_entry [OF this, of n] Cons e show ?case by simp
qed

lemma lines_of_document:
  "lines_of (generateYamlConfig cs) =
     [''# Validation Configuration'',
      ''# This file defines the validation rules for your data.'',
      ''# Each column in your data file should have an entry here.'',
      [], ''validations:'']
     @ (if config_entries cs = [] then [[]]
        else concat (map lines_of (map yaml_entry (config_entries cs))))
     @ [[]]"
proof -
  let ?h1 = "''# Validation Configuration''"
  let ?h2 = "''# This file defines the validation rules for your data.''"
  let ?h3 = "''# Each column in your data file should have an entry here.''"
  let ?v = "''validations:''"
  let ?body = "join [CHR 0x0A] (map yaml_entry (config_entries cs))"
  have doc: "generateYamlConfig cs =
      ?h1 @ CHR 0x0A # ?h2 @ CHR 0x0A # ?h3 @ CHR 0x0A # [] @ CHR 0x0A # ?v @ CHR 0x0A # ?body
        @ CHR 0x0A # []"
    by (simp add: generateYamlConfig_def yaml_header_def)
  have s1: "lines_of ?h1 = [?h1]" by (rule lines_of_single) simp
  have s2: "lines_of ?h2 = [?h2]" by (rule lines_of_single) simp
  have s3: "lines_of ?h3 = [?h3]" by (rule lines_of_single) simp
  have s4: "lines_of ?v = [?v]" by (rule lines_of_single) simp
  show ?thesis
    unfolding doc lines_of_newline s1 s2 s3 s4 lines_of_Nil lines_of_join
    by (simp only: append.simps map_is_Nil_conv)
qed

lemma entries_from_configs:
  "e \<in> set (config_entries cs) \<Longrightarrow> \<exists>c\<in>set cs. e = (name c, validation c)"
proof -
  have sub: "set (assign_property ps k v) \<subseteq> insert (k, v) (set ps)" for ps :: "(string \<times> ValidationRule) list" and k v
    by (induction ps k v rule: assign_property.induct) auto
  have "set (config_object cs) \<subseteq> (\<lambda>c. (name c, validation c)) ` set cs"
  proof (induction cs rule: rev_induct)
    case Nil
    then show ?case by (simp add: config_object_def)
  next
    case (snoc c cs)
    with sub [of "config_object cs" "name c" "validation c"] show ?case
      by (auto simp: config_object_snoc set_property_def)
  qed
  moreover assume "e \<in> set (config_entries cs)"
  ultimately show ?thesis by (auto simp: config_entries_def set_Object_entries)
qed

lemma single_line_entries:
  assumes "list_all (\<lambda>c. single_line_entry (name c, validation c)) cs"
  shows "list_all single_line_entry (config_entries cs)"
  unfolding list_all_iff
proof
  fix e assume "e \<in> set (config_entries cs)"
  then obtain c where "c \<in> set cs" and "e = (name c, validation c)"
    using entries_from_configs by blast
  with assms show "single_line_entry e" by (simp add: list_all_iff)
qed

lemma document_of_entries:
  "generateYamlConfig cs =
     ''# Validation Configuration\<newline># This file defines the validation rules for your data.\<newline># Each column in your data file should have an entry here.\<newline>\<newline>validations:\<newline>''
     @ join ''\<newline>'' (map yaml_entry (config_entries cs)) @ ''\<newline>''"
  by (simp add: generateYamlConfig_def yaml_header_def)

lemma count_key_document:
  assumes "list_all (\<lambda>c. single_line_entry (name c, validation c)) cs"
  shows "count_list (lines_of (generateYamlConfig cs)) (''  '' @ n @ '':'')
         = length (filter (\<lambda>e. fst e = n) (config_entries cs))"
proof -
  have es: "list_all single_line_entry (config_entries cs)"
    using assms by (rule single_line_entries)
  show ?thesis
  proof (cases "config_entries cs = []")
    case True
    then show ?thesis by (simp add: lines_of_document)
  next
    case False
    then show ?thesis
      using count_key_entries [OF es, of n] by (simp add: lines_of_document)
  qed
qed

section \<open>The empty document\<close>

text \<open>
  Claim C7: the emitter has no failing branch and gives a string for every list of
  configurations, which starts with the header comment and the \<open>validations:\<close> key; for
  the empty list there is no entry, and the document is the header, the \<open>validations:\<close>
  line and an empty line.
\<close>

theorem emit_total_and_empty:
  "generateYamlConfig [] =
     ''# Validation Configuration\<newline># This file defines the validation rules for your data.\<newline># Each column in your data file should have an entry here.\<newline>\<newline>validations:\<newline>\<newline>''
   \<and> config_entries [] = []
   \<and> (\<exists>body. generateYamlConfig cs =
         ''# Validation Configuration\<newline># This file defines the validation rules for your data.\<newline># Each column in your data file should have an entry here.\<newline>\<newline>validations:\<newline>''
         @ body @ ''\<newline>'')"
  by (simp add: generateYamlConfig_def yaml_header_def config_entries_def config_object_def
        Object_entries_def)

section \<open>Configurations of the same name\<close>

text \<open>
  Claim C9, for every name but \<open>__proto__\<close>: when one or several configurations of the
  input list have the name, the document has exactly one entry for it, and that entry
  is made from the rule of the last of them. The entries of the document split into
  those before, this one, and those after, and no other is keyed by the name. When no
  name and no regex of the list holds a newline character, exactly one line of the
  document is the key line of the name, and the lines of the entry of the last rule are
  lines of the document, one after the other.
\<close>

theorem duplicate_names_last_wins:
  assumes "n \<in> name ` set cs" and "n \<noteq> ''__proto__''"
  shows "\<exists>before after.
      config_entries cs =
        before @ [(n, validation (last (filter (\<lambda>c. name c = n) cs)))] @ after
    \<and> list_all (\<lambda>e. fst e \<noteq> n) before \<and> list_all (\<lambda>e. fst e \<noteq> n) after
    \<and> generateYamlConfig cs =
        ''# Validation Configuration\<newline># This file defines the validation rules for your data.\<newline># Each column in your data file should have an entry here.\<newline>\<newline>validations:\<newline>''
        @ join ''\<newline>''
            (map yaml_entry before
             @ [yaml_entry (n, validation (last (filter (\<lambda>c. name c = n) cs)))]
             @ map yaml_entry after)
        @ ''\<newline>''
    \<and> (list_all (\<lambda>c. single_line_entry (name c, validation c)) cs \<longrightarrow>
         count_list (lines_of (generateYamlConfig cs)) (''  '' @ n @ '':'') = 1
         \<and> (\<exists>pre post. lines_of (generateYamlConfig cs) =
               pre @ lines_of (yaml_entry (n, validation (last (filter (\<lambda>c. name c = n) cs))))
               @ post))"
proof -
  let ?r = "validation (last (filter (\<lambda>c. name c = n) cs))"
  have f: "filter (\<lambda>e. fst e = n) (config_entries cs) = [(n, ?r)]"
    using assms by (rule entries_for_name)
  from singleton_filter_split [OF f]
  obtain before after where es: "config_entries cs = before @ [(n, ?r)] @ after"
    and b: "list_all (\<lambda>e. \<not> fst e = n) before" and a: "list_all (\<lambda>e. \<not> fst e = n) after"
    by (elim exE conjE)
  have doc: "generateYamlConfig cs =
        ''# Validation Configuration\<newline># This file defines the validation rules for your data.\<newline># Each column in your data file should have an entry here.\<newline>\<newline>validations:\<newline>''
        @ join ''\<newline>''
            (map yaml_entry before @ [yaml_entry (n, ?r)] @ map yaml_entry after)
        @ ''\<newline>''"
    unfolding document_of_entries es by (simp only: map_append list.map)
  have lines: "list_all (\<lambda>c. single_line_entry (name c, validation c)) cs \<longrightarrow>
         count_list (lines_of (generateYamlConfig cs)) (''  '' @ n @ '':'') = 1
         \<and> (\<exists>pre post. lines_of (generateYamlConfig cs) =
               pre @ lines_of (yaml_entry (n, ?r)) @ post)"
  proof
    assume sl: "list_all (\<lambda>c. single_line_entry (name c, validation c)) cs"
    have c1: "count_list (lines_of (generateYamlConfig cs)) (''  '' @ n @ '':'') = 1"
      unfolding count_key_document [OF sl] f by simp
    have ne: "config_entries cs \<noteq> []" using es by simp
    have "lines_of (generateYamlConfig cs) =
        ([''# Validation Configuration'',
          ''# This file defines the validation rules for your data.'',
          ''# Each column in your data file should have an entry here.'',
          [], ''validations:'']
         @ concat (map lines_of (map yaml_entry before)))
        @ lines_of (yaml_entry (n, ?r))
        @ (concat (map lines_of (map yaml_entry after)) @ [[]])"
      unfolding lines_of_document es
      by (simp only: map_append list.map concat_append concat.simps append_assoc
            append_is_Nil_conv list.simps simp_thms if_False append_Nil2)
    then have "\<exists>pre post. lines_of (generateYamlConfig cs) =
               pre @ lines_of (yaml_entry (n, ?r)) @ post"
      by (intro exI)
    with c1 show "count_list (lines_of (generateYamlConfig cs)) (''  '' @ n @ '':'') = 1
         \<and> (\<exists>pre post. lines_of (generateYamlConfig cs) =
               pre @ lines_of (yaml_entry (n, ?r)) @ post)"
      by (rule conjI)
  qed
  show ?thesis
    apply (rule exI [of _ before])
    apply (rule exI [of _ after])
    apply (insert es b a doc lines)
    apply (intro conjI)
    apply assumption+
    done
qed

theorem duplicate_names_witness:
  "''zone_name'' \<in> name ` set
       [\<lparr> name = ''zone_name'', validation = \<lparr> type = Some TInteger, regex = None,
            allowedValues = None, min_val = Some (number_of_int 0),
            max_val = Some (number_of_int 10) \<rparr> \<rparr>,
        \<lparr> name = ''location'', validation = \<lparr> type = Some TString, regex = None,
            allowedValues = None, min_val = None, max_val = None \<rparr> \<rparr>,
        \<lparr> name = ''zone_name'', validation = \<lparr> type = Some TString, regex = Some ''^z'',
            allowedValues = None, min_val = None, max_val = None \<rparr> \<rparr>]
   \<and> ''zone_name'' \<noteq> ''__proto__''
   \<and> list_all (\<lambda>c. single_line_entry (name c, validation c))
       [\<lparr> name = ''zone_name'', validation = \<lparr> type = Some TInteger, regex = None,
            allowedValues = None, min_val = Some (number_of_int 0),
            max_val = Some (number_of_int 10) \<rparr> \<rparr>,
        \<lparr> name = ''location'', validation = \<lparr> type = Some TString, regex = None,
            allowedValues = None, min_val = None, max_val = None \<rparr> \<rparr>,
        \<lparr> name = ''zone_name'', validation = \<lparr> type = Some TString, regex = Some ''^z'',
            allowedValues = None, min_val = None, max_val = None \<rparr> \<rparr>]
   \<and> count_list (lines_of (generateYamlConfig
       [\<lparr> name = ''zone_name'', validation = \<lparr> type = Some TInteger, regex = None,
            allowedValues = None, min_val = Some (number_of_int 0),
            max_val = Some (number_of_int 10) \<rparr> \<rparr>,
        \<lparr> name = ''location'', validation = \<lparr> type = Some TString, regex = None,
            allowedValues = None, min_val = None, max_val = None \<rparr> \<rparr>,
        \<lparr> name = ''zone_name'', validation = \<lparr> type = Some TString, regex = Some ''^z'',
            allowedValues = None, min_val = None, max_val = None \<rparr> \<rparr>]))
        ''  zone_name:'' = 1
   \<and> lines_of (generateYamlConfig
       [\<lparr> name = ''zone_name'', validation = \<lparr> type = Some TInteger, regex = None,
            allowedValues = None, min_val = Some (number_of_int 0),
            max_val = Some (number_of_int 10) \<rparr> \<rparr>,
        \<lparr> name = ''location'', validation = \<lparr> type = Some TString, regex = None,
            allowedValues = None, min_val = None, max_val = None \<rparr> \<rparr>,
        \<lparr> name = ''zone_name'', validation = \<lparr> type = Some TString, regex = Some ''^z'',
            allowedValues = None, min_val = None, max_val = None \<rparr> \<rparr>])
      = [''# Validation Configuration'',
         ''# This file defines the validation rules for your data.'',
         ''# Each column in your data file should have an entry here.'',
         [], ''validations:'',
         ''  zone_name:'', ''    type: string'', ''    regex: '' @ [CHR 0x22] @ ''^z'' @ [CHR 0x22],
         ''    '', ''    '', ''    '',
         ''  location:'', ''    type: string'', ''    '', ''    '', ''    '', ''    '',
         []]"
proof -
  let ?c1 = "\<lparr> name = ''zone_name'', validation = \<lparr> type = Some TInteger, regex = None,
            allowedValues = None, min_val = Some (number_of_int 0),
            max_val = Some (number_of_int 10) \<rparr> \<rparr>"
  let ?c2 = "\<lparr> name = ''location'', validation = \<lparr> type = Some TString, regex = None,
            allowedValues = None, min_val = None, max_val = None \<rparr> \<rparr>"
  let ?c3 = "\<lparr> name = ''zone_name'', validation = \<lparr> type = Some TString, regex = Some ''^z'',
            allowedValues = None, min_val = None, max_val = None \<rparr> \<rparr>"
  have h1: "''zone_name'' \<in> name ` set [?c1, ?c2, ?c3]" by simp
  have h2: "''zone_name'' \<noteq> ''__proto__''" by simp
  have h3: "list_all (\<lambda>c. single_line_entry (name c, validation c)) [?c1, ?c2, ?c3]"
    by (simp add: single_line_entry_def)
  from duplicate_names_last_wins [OF h1 h2]
  have "list_all (\<lambda>c. single_line_entry (name c, validation c)) [?c1, ?c2, ?c3] \<longrightarrow>
         count_list (lines_of (generateYamlConfig [?c1, ?c2, ?c3])) (''  '' @ ''zone_name'' @ '':'') = 1"
    by (elim exE conjE) (rule impI, drule (1) mp, elim conjE)
  with h3 have p4: "count_list (lines_of (generateYamlConfig [?c1, ?c2, ?c3])) ''  zone_name:'' = 1"
    by simp
  have p5: "lines_of (generateYamlConfig [?c1, ?c2, ?c3])
      = [''# Validation Configuration'',
         ''# This file defines the validation rules for your data.'',
         ''# Each column in your data file should have an entry here.'',
         [], ''validations:'',
         ''  zone_name:'', ''    type: string'', ''    regex: '' @ [CHR 0x22] @ ''^z'' @ [CHR 0x22],
         ''    '', ''    '', ''    '',
         ''  location:'', ''    type: string'', ''    '', ''    '', ''    '', ''    '',
         []]"
    by code_simp
  from h1 h2 h3 p4 p5 show ?thesis by (intro conjI)
qed

text \<open>
  The claim as written covers every name. Two configurations named \<open>__proto__\<close> leave
  the object without an own property: the document has no entry and no key line for the
  name, where the claim has exactly one.
\<close>

theorem duplicate_proto_counterexample:
  "''__proto__'' \<in> name ` set
       [\<lparr> name = ''__proto__'', validation = \<lparr> type = Some TInteger, regex = None,
            allowedValues = None, min_val = None, max_val = None \<rparr> \<rparr>,
        \<lparr> name = ''__proto__'', validation = \<lparr> type = Some TString, regex = None,
            allowedValues = None, min_val = None, max_val = None \<rparr> \<rparr>]
   \<and> config_entries
       [\<lparr> name = ''__proto__'', validation = \<lparr> type = Some TInteger, regex = None,
            allowedValues = None, min_val = None, max_val = None \<rparr> \<rparr>,
        \<lparr> name = ''__proto__'', validation = \<lparr> type = Some TString, regex = None,
            allowedValues = None, min_val = None, max_val = None \<rparr> \<rparr>] = []
   \<and> lines_of (generateYamlConfig
       [\<lparr> name = ''__proto__'', validation = \<lparr> type = Some TInteger, regex = None,
            allowedValues = None, min_val = None, max_val = None \<rparr> \<rparr>,
        \<lparr> name = ''__proto__'', validation = \<lparr> type = Some TString, regex = None,
            allowedValues = None, min_val = None, max_val = None \<rparr> \<rparr>])
      = [''# Validation Configuration'',
         ''# This file defines the validation rules for your data.'',
         ''# Each column in your data file should have an entry here.'',
         [], ''validations:'', [], []]
   \<and> count_list (lines_of (generateYamlConfig
       [\<lparr> name = ''__proto__'', validation = \<lparr> type = Some TInteger, regex = None,
            allowedValues = None, min_val = None, max_val = None \<rparr> \<rparr>,
        \<lparr> name = ''__proto__'', validation = \<lparr> type = Some TString, regex = None,
            allowedValues = None, min_val = None, max_val = None \<rparr> \<rparr>]))
        ''  __proto__:'' = 0"
  by code_simp

section \<open>The entry of one column\<close>

lemma last_config_has_entry:
  assumes "c \<in> set cs" and "name c \<noteq> ''__proto__''"
  shows "(name c, validation (last (filter (\<lambda>c'. name c' = name c) cs))) \<in> set (config_entries cs)"
proof -
  from assms(1) have "name c \<in> name ` set cs" by simp
  then have "filter (\<lambda>e. fst e = name c) (config_entries cs) =
        [(name c, validation (last (filter (\<lambda>c'. name c' = name c) cs)))]"
    using assms(2) by (rule entries_for_name)
  then have "(name c, validation (last (filter (\<lambda>c'. name c' = name c) cs)))
        \<in> set (filter (\<lambda>e. fst e = name c) (config_entries cs))"
    by simp
  then show ?thesis by simp
qed

lemma filter_unique_name:
  "distinct (map name cs) \<Longrightarrow> c \<in> set cs \<Longrightarrow> filter (\<lambda>c'. name c' = name c) cs = [c]"
proof (induction cs)
  case Nil
  then show ?case by simp
next
  case (Cons x xs)
  show ?case
  proof (cases "x = c")
    case True
    with Cons.prems(1) have "name c \<notin> name ` set xs" by simp
    then have "\<forall>x\<in>set xs. name x \<noteq> name c" by (metis imageI)
    then have "filter (\<lambda>c'. name c' = name c) xs = []"
      by (simp add: filter_empty_conv)
    with True show ?thesis by simp
  next
    case False
    with Cons.prems have in_xs: "c \<in> set xs" and "name x \<notin> name ` set xs" by simp_all
    then have "name x \<noteq> name c" by auto
    with Cons.IH Cons.prems(1) in_xs show ?thesis by simp
  qed
qed

lemma json_quote_fun:
  "json_quote = (\<lambda>v. [CHR 0x22] @ concat (map json_escape_char v) @ [CHR 0x22])"
  by (rule ext) (simp add: json_quote_def)

lemma own_rule_has_entry:
  assumes "distinct (map name cs)" and "c \<in> set cs" and "name c \<noteq> ''__proto__''"
  shows "(name c, validation c) \<in> set (config_entries cs)"
  using last_config_has_entry [OF assms(2,3)] filter_unique_name [OF assms(1,2)] by simp

lemmas number_eval = number_to_string_def number_of_int_def decimal_to_string_def
  nat_to_string.simps strip_zeros.simps digit_char_def Let_def

text \<open>
  Claim C8, for every configuration whose name is not \<open>__proto__\<close>: the document is the
  header, the \<open>validations:\<close> key and the entries of the object the emitter fills, joined
  by newlines. The configuration has an entry under its name, made from the rule of the
  last configuration of that name, which is its own rule when the names are distinct;
  with distinct names none of which is an array index the entries are the
  configurations in their order. An entry is six lines (lines of the document when name
  and regex hold no newline character): the name as key; a \<open>type\<close> line, \<open>string\<close> when
  the type is unset; a third line that holds a quoted \<open>regex\<close> only if a regex is
  present; a fourth line that holds \<open>allowed_values\<close> with the JSON list exactly when
  \<open>allowedValues\<close> is present; a fifth and a sixth line that hold \<open>min\<close> and \<open>max\<close>
  exactly when the value is not absent, so that 0 is emitted as \<open>min: 0\<close>. A line whose
  part does not apply holds the indentation only. The JSON list is the strings between
  double quotes, separated by commas, between brackets, with the escapes of
  \<open>JSON.stringify\<close>; the numbers are written as the language writes them. The single
  configuration \<open>zone_name\<close> with type integer, min 0 and max 10 gives the entry
  \<open>zone_name:\<close> with \<open>type: integer\<close>, \<open>min: 0\<close>, \<open>max: 10\<close> and neither a \<open>regex\<close> nor an
  \<open>allowed_values\<close> line.
\<close>

theorem emit_entry_per_column:
  \<open>generateYamlConfig cs =
      ''# Validation Configuration\<newline># This file defines the validation rules for your data.\<newline># Each column in your data file should have an entry here.\<newline>\<newline>validations:\<newline>''
      @ join ''\<newline>'' (map yaml_entry (config_entries cs)) @ ''\<newline>''
   \<and> (c \<in> set cs \<and> name c \<noteq> ''__proto__'' \<longrightarrow>
        (name c, validation (last (filter (\<lambda>c'. name c' = name c) cs))) \<in> set (config_entries cs))
   \<and> (distinct (map name cs) \<and> c \<in> set cs \<and> name c \<noteq> ''__proto__'' \<longrightarrow>
        (name c, validation c) \<in> set (config_entries cs))
   \<and> (distinct (map name cs)
       \<and> list_all (\<lambda>c. name c \<noteq> ''__proto__'' \<and> \<not> is_array_index (name c)) cs \<longrightarrow>
        config_entries cs = map (\<lambda>c. (name c, validation c)) cs)
   \<and> (\<exists>T R A MI MA.
        yaml_entry (column, rules) =
          join ''\<newline>''
            [''  '' @ column @ '':'', ''    type: '' @ T,
             ''    '' @ R, ''    '' @ A, ''    '' @ MI, ''    '' @ MA]
        \<and> (single_line_entry (column, rules) \<longrightarrow>
             lines_of (yaml_entry (column, rules)) =
               [''  '' @ column @ '':'', ''    type: '' @ T,
                ''    '' @ R, ''    '' @ A, ''    '' @ MI, ''    '' @ MA])
        \<and> (type rules = None \<longrightarrow> T = ''string'')
        \<and> (type rules = Some TString \<longrightarrow> T = ''string'')
        \<and> (type rules = Some TInteger \<longrightarrow> T = ''integer'')
        \<and> (type rules = Some TFloat \<longrightarrow> T = ''float'')
        \<and> (type rules = Some TBoolean \<longrightarrow> T = ''boolean'')
        \<and> (R \<noteq> [] \<longrightarrow> regex rules \<noteq> None)
        \<and> (\<forall>r. regex rules = Some r \<and> r \<noteq> [] \<longrightarrow> R = ''regex: '' @ [CHR 0x22] @ r @ [CHR 0x22])
        \<and> (allowedValues rules = None \<longrightarrow> A = [])
        \<and> (\<forall>vs. allowedValues rules = Some vs \<longrightarrow> A = ''allowed_values: '' @ JSON_stringify vs)
        \<and> (min_val rules = None \<longrightarrow> MI = [])
        \<and> (\<forall>x. min_val rules = Some x \<longrightarrow> MI = ''min: '' @ number_to_string x)
        \<and> (max_val rules = None \<longrightarrow> MA = [])
        \<and> (\<forall>x. max_val rules = Some x \<longrightarrow> MA = ''max: '' @ number_to_string x))
   \<and> JSON_stringify vs =
        ''['' @ join '','' (map (\<lambda>v. [CHR 0x22] @ concat (map json_escape_char v) @ [CHR 0x22]) vs)
        @ '']'' 
   \<and> map json_escape_char (map char_of [0 ..< 32 :: nat]) =
        [CHR 0x5C # ''u0000'',
         CHR 0x5C # ''u0001'',
         CHR 0x5C # ''u0002'',
         CHR 0x5C # ''u0003'',
         CHR 0x5C # ''u0004'',
         CHR 0x5C # ''u0005'',
         CHR 0x5C # ''u0006'',
         CHR 0x5C # ''u0007'',
         [CHR 0x5C, CHR ''b''],
         [CHR 0x5C, CHR ''t''],
         [CHR 0x5C, CHR ''n''],
         CHR 0x5C # ''u000b'',
         [CHR 0x5C, CHR ''f''],
         [CHR 0x5C, CHR ''r''],
         CHR 0x5C # ''u000e'',
         CHR 0x5C # ''u000f'',
         CHR 0x5C # ''u0010'',
         CHR 0x5C # ''u0011'',
         CHR 0x5C # ''u0012'',
         CHR 0x5C # ''u0013'',
         CHR 0x5C # ''u0014'',
         CHR 0x5C # ''u0015'',
         CHR 0x5C # ''u0016'',
         CHR 0x5C # ''u0017'',
         CHR 0x5C # ''u0018'',
         CHR 0x5C # ''u0019'',
         CHR 0x5C # ''u001a'',
         CHR 0x5C # ''u001b'',
         CHR 0x5C # ''u001c'',
         CHR 0x5C # ''u001d'',
         CHR 0x5C # ''u001e'',
         CHR 0x5C # ''u001f'']
   \<and> (\<forall>c. 32 \<le> (of_char c :: nat) \<longrightarrow>
          json_escape_char c =
            (if c = CHR 0x22 then [CHR 0x5C, CHR 0x22]
             else if c = CHR 0x5C then [CHR 0x5C, CHR 0x5C] else [c]))
   \<and> JSON_stringify [''a'', ''b''] = ''["a","b"]'' 
   \<and> number_to_string (number_of_int 0) = ''0''
   \<and> number_to_string (number_of_int 10) = ''10''
   \<and> number_to_string (number_of_int (- 42)) = ''-42''
   \<and> number_to_string (number_of_int 1200) = ''1200''
   \<and> number_to_string (Decimal True 0 1) = ''0''
   \<and> number_to_string (Decimal False 5 0) = ''0.5''
   \<and> number_to_string (Decimal True 15 1) = ''-1.5''
   \<and> number_to_string (Decimal False 1 (- 5)) = ''0.000001''
   \<and> number_to_string (Decimal False 1 (- 6)) = ''1e-7''
   \<and> number_to_string (Decimal False 12 (- 6)) = ''1.2e-7''
   \<and> number_to_string (Decimal False 1 21) = ''100000000000000000000''
   \<and> number_to_string (Decimal False 1 22) = ''1e+21''
   \<and> number_to_string (Decimal False 15 22) = ''1.5e+21''
   \<and> number_to_string (Decimal False 1152921504606847 19) = ''1152921504606847000''
   \<and> number_to_string (NaN) = ''NaN''
   \<and> number_to_string (Infinity False) = ''Infinity''
   \<and> number_to_string (Infinity True) = ''-Infinity''
   \<and> generateYamlConfig
        [\<lparr> name = ''zone_name'',
           validation = \<lparr> type = Some TInteger, regex = None, allowedValues = None,
                          min_val = Some (number_of_int 0), max_val = Some (number_of_int 10) \<rparr> \<rparr>]
      = ''# Validation Configuration\<newline># This file defines the validation rules for your data.\<newline># Each column in your data file should have an entry here.\<newline>\<newline>validations:\<newline>  zone_name:\<newline>    type: integer\<newline>    \<newline>    \<newline>    min: 0\<newline>    max: 10\<newline>'' \<close>
proof (intro conjI)
  show \<open>generateYamlConfig cs =
      ''# Validation Configuration\<newline># This file defines the validation rules for your data.\<newline># Each column in your data file should have an entry here.\<newline>\<newline>validations:\<newline>''
      @ join ''\<newline>'' (map yaml_entry (config_entries cs)) @ ''\<newline>''\<close>
    by (rule document_of_entries)
next
  show \<open>(c \<in> set cs \<and> name c \<noteq> ''__proto__'' \<longrightarrow>
        (name c, validation (last (filter (\<lambda>c'. name c' = name c) cs))) \<in> set (config_entries cs))\<close>
    using last_config_has_entry by blast
next
  show \<open>(distinct (map name cs) \<and> c \<in> set cs \<and> name c \<noteq> ''__proto__'' \<longrightarrow>
        (name c, validation c) \<in> set (config_entries cs))\<close>
    using own_rule_has_entry by blast
next
  show \<open>(distinct (map name cs)
       \<and> list_all (\<lambda>c. name c \<noteq> ''__proto__'' \<and> \<not> is_array_index (name c)) cs \<longrightarrow>
        config_entries cs = map (\<lambda>c. (name c, validation c)) cs)\<close>
    using config_entries_distinct by blast
next
  show \<open>JSON_stringify vs =
        ''['' @ join '','' (map (\<lambda>v. [CHR 0x22] @ concat (map json_escape_char v) @ [CHR 0x22]) vs)
        @ '']'' \<close>
    by (simp only: JSON_stringify_def json_quote_fun)
next
  show \<open>map json_escape_char (map char_of [0 ..< 32 :: nat]) =
        [CHR 0x5C # ''u0000'',
         CHR 0x5C # ''u0001'',
         CHR 0x5C # ''u0002'',
         CHR 0x5C # ''u0003'',
         CHR 0x5C # ''u0004'',
         CHR 0x5C # ''u0005'',
         CHR 0x5C # ''u0006'',
         CHR 0x5C # ''u0007'',
         [CHR 0x5C, CHR ''b''],
         [CHR 0x5C, CHR ''t''],
         [CHR 0x5C, CHR ''n''],
         CHR 0x5C # ''u000b'',
         [CHR 0x5C, CHR ''f''],
         [CHR 0x5C, CHR ''r''],
         CHR 0x5C # ''u000e'',
         CHR 0x5C # ''u000f'',
         CHR 0x5C # ''u0010'',
         CHR 0x5C # ''u0011'',
         CHR 0x5C # ''u0012'',
         CHR 0x5C # ''u0013'',
         CHR 0x5C # ''u0014'',
         CHR 0x5C # ''u0015'',
         CHR 0x5C # ''u0016'',
         CHR 0x5C # ''u0017'',
         CHR 0x5C # ''u0018'',
         CHR 0x5C # ''u0019'',
         CHR 0x5C # ''u001a'',
         CHR 0x5C # ''u001b'',
         CHR 0x5C # ''u001c'',
         CHR 0x5C # ''u001d'',
         CHR 0x5C # ''u001e'',
         CHR 0x5C # ''u001f'']\<close>
    by code_simp
next
  show \<open>(\<forall>c. 32 \<le> (of_char c :: nat) \<longrightarrow>
          json_escape_char c =
            (if c = CHR 0x22 then [CHR 0x5C, CHR 0x22]
             else if c = CHR 0x5C then [CHR 0x5C, CHR 0x5C] else [c]))\<close>
    by (auto simp: json_escape_char_def)
next
  show \<open>JSON_stringify [''a'', ''b''] = ''["a","b"]'' \<close>
    by code_simp
next
  show \<open>number_to_string (number_of_int 0) = ''0''\<close>
    by (simp add: number_eval; code_simp)
next
  show \<open>number_to_string (number_of_int 10) = ''10''\<close>
    by (simp add: number_eval; code_simp)
next
  show \<open>number_to_string (number_of_int (- 42)) = ''-42''\<close>
    by (simp add: number_eval; code_simp)
next
  show \<open>number_to_string (number_of_int 1200) = ''1200''\<close>
    by (simp add: number_eval; code_simp)
next
  show \<open>number_to_string (Decimal True 0 1) = ''0''\<close>
    by (simp add: number_eval; code_simp)
next
  show \<open>number_to_string (Decimal False 5 0) = ''0.5''\<close>
    by (simp add: number_eval; code_simp)
next
  show \<open>number_to_string (Decimal True 15 1) = ''-1.5''\<close>
    by (simp add: number_eval; code_simp)
next
  show \<open>number_to_string (Decimal False 1 (- 5)) = ''0.000001''\<close>
    by (simp add: number_eval; code_simp)
next
  show \<open>number_to_string (Decimal False 1 (- 6)) = ''1e-7''\<close>
    by (simp add: number_eval; code_simp)
next
  show \<open>number_to_string (Decimal False 12 (- 6)) = ''1.2e-7''\<close>
    by (simp add: number_eval; code_simp)
next
  show \<open>number_to_string (Decimal False 1 21) = ''100000000000000000000''\<close>
    by (simp add: number_eval; code_simp)
next
  show \<open>number_to_string (Decimal False 1 22) = ''1e+21''\<close>
    by (simp add: number_eval; code_simp)
next
  show \<open>number_to_string (Decimal False 15 22) = ''1.5e+21''\<close>
    by (simp add: number_eval; code_simp)
next
  show \<open>number_to_string (Decimal False 1152921504606847 19) = ''1152921504606847000''\<close>
    by (simp add: number_eval; code_simp)
next
  show \<open>number_to_string (NaN) = ''NaN''\<close>
    by (simp add: number_eval; code_simp)
next
  show \<open>number_to_string (Infinity False) = ''Infinity''\<close>
    by (simp add: number_eval; code_simp)
next
  show \<open>number_to_string (Infinity True) = ''-Infinity''\<close>
    by (simp add: number_eval; code_simp)
next
  show \<open>generateYamlConfig
        [\<lparr> name = ''zone_name'',
           validation = \<lparr> type = Some TInteger, regex = None, allowedValues = None,
                          min_val = Some (number_of_int 0), max_val = Some (number_of_int 10) \<rparr> \<rparr>]
      = ''# Validation Configuration\<newline># This file defines the validation rules for your data.\<newline># Each column in your data file should have an entry here.\<newline>\<newline>validations:\<newline>  zone_name:\<newline>    type: integer\<newline>    \<newline>    \<newline>    min: 0\<newline>    max: 10\<newline>'' \<close>
    by code_simp
next
  let ?T = "case type rules of Some t \<Rightarrow> type_to_string t | None \<Rightarrow> ''string''"
  let ?R = "case regex rules of
              Some r \<Rightarrow> (if r \<noteq> [] then ''regex: '' @ [CHR 0x22] @ r @ [CHR 0x22] else [])
            | None \<Rightarrow> []"
  let ?A = "case allowedValues rules of
              Some vs \<Rightarrow> ''allowed_values: '' @ JSON_stringify vs | None \<Rightarrow> []"
  let ?MI = "case min_val rules of Some n \<Rightarrow> ''min: '' @ number_to_string n | None \<Rightarrow> []"
  let ?MA = "case max_val rules of Some n \<Rightarrow> ''max: '' @ number_to_string n | None \<Rightarrow> []"
  have e: "yaml_entry (column, rules) =
          join ''\<newline>''
            [''  '' @ column @ '':'', ''    type: '' @ ?T,
             ''    '' @ ?R, ''    '' @ ?A, ''    '' @ ?MI, ''    '' @ ?MA]"
    by (rule yaml_entry_join)
  have l: "single_line_entry (column, rules) \<longrightarrow>
             lines_of (yaml_entry (column, rules)) =
               [''  '' @ column @ '':'', ''    type: '' @ ?T,
                ''    '' @ ?R, ''    '' @ ?A, ''    '' @ ?MI, ''    '' @ ?MA]"
    using lines_of_yaml_entry by blast
  have t: "(type rules = None \<longrightarrow> ?T = ''string'')
        \<and> (type rules = Some TString \<longrightarrow> ?T = ''string'')
        \<and> (type rules = Some TInteger \<longrightarrow> ?T = ''integer'')
        \<and> (type rules = Some TFloat \<longrightarrow> ?T = ''float'')
        \<and> (type rules = Some TBoolean \<longrightarrow> ?T = ''boolean'')"
    by (simp add: type_to_string_def)
  have r: "(?R \<noteq> [] \<longrightarrow> regex rules \<noteq> None)
        \<and> (\<forall>r. regex rules = Some r \<and> r \<noteq> [] \<longrightarrow> ?R = ''regex: '' @ [CHR 0x22] @ r @ [CHR 0x22])"
    by (cases "regex rules") simp_all
  have a: "(allowedValues rules = None \<longrightarrow> ?A = [])
        \<and> (\<forall>vs. allowedValues rules = Some vs \<longrightarrow> ?A = ''allowed_values: '' @ JSON_stringify vs)"
    by (cases "allowedValues rules") simp_all
  have mi: "(min_val rules = None \<longrightarrow> ?MI = [])
        \<and> (\<forall>x. min_val rules = Some x \<longrightarrow> ?MI = ''min: '' @ number_to_string x)"
    by (cases "min_val rules") simp_all
  have ma: "(max_val rules = None \<longrightarrow> ?MA = [])
        \<and> (\<forall>x. max_val rules = Some x \<longrightarrow> ?MA = ''max: '' @ number_to_string x)"
    by (cases "max_val rules") simp_all
  show "\<exists>T R A MI MA.
        yaml_entry (column, rules) =
          join ''\<newline>''
            [''  '' @ column @ '':'', ''    type: '' @ T,
             ''    '' @ R, ''    '' @ A, ''    '' @ MI, ''    '' @ MA]
        \<and> (single_line_entry (column, rules) \<longrightarrow>
             lines_of (yaml_entry (column, rules)) =
               [''  '' @ column @ '':'', ''    type: '' @ T,
                ''    '' @ R, ''    '' @ A, ''    '' @ MI, ''    '' @ MA])
        \<and> (type rules = None \<longrightarrow> T = ''string'')
        \<and> (type rules = Some TString \<longrightarrow> T = ''string'')
        \<and> (type rules = Some TInteger \<longrightarrow> T = ''integer'')
        \<and> (type rules = Some TFloat \<longrightarrow> T = ''float'')
        \<and> (type rules = Some TBoolean \<longrightarrow> T = ''boolean'')
        \<and> (R \<noteq> [] \<longrightarrow> regex rules \<noteq> None)
        \<and> (\<forall>r. regex rules = Some r \<and> r \<noteq> [] \<longrightarrow> R = ''regex: '' @ [CHR 0x22] @ r @ [CHR 0x22])
        \<and> (allowedValues rules = None \<longrightarrow> A = [])
        \<and> (\<forall>vs. allowedValues rules = Some vs \<longrightarrow> A = ''allowed_values: '' @ JSON_stringify vs)
        \<and> (min_val rules = None \<longrightarrow> MI = [])
        \<and> (\<forall>x. min_val rules = Some x \<longrightarrow> MI = ''min: '' @ number_to_string x)
        \<and> (max_val rules = None \<longrightarrow> MA = [])
        \<and> (\<forall>x. max_val rules = Some x \<longrightarrow> MA = ''max: '' @ number_to_string x)"
    apply (rule exI [of _ ?T])
    apply (rule exI [of _ ?R])
    apply (rule exI [of _ ?A])
    apply (rule exI [of _ ?MI])
    apply (rule exI [of _ ?MA])
    apply (insert e l t r a mi ma)
    apply (elim conjE)
    apply (intro conjI)
    apply assumption+
    done
qed

theorem emit_entry_witness:
  \<open>\<lparr> name = ''zone_name'',
       validation = \<lparr> type = Some TInteger, regex = None, allowedValues = None,
                      min_val = Some (number_of_int 0), max_val = Some (number_of_int 10) \<rparr> \<rparr>
     \<in> set [\<lparr> name = ''zone_name'',
              validation = \<lparr> type = Some TInteger, regex = None, allowedValues = None,
                             min_val = Some (number_of_int 0),
                             max_val = Some (number_of_int 10) \<rparr> \<rparr>]
   \<and> distinct (map name
        [\<lparr> name = ''zone_name'',
           validation = \<lparr> type = Some TInteger, regex = None, allowedValues = None,
                          min_val = Some (number_of_int 0),
                          max_val = Some (number_of_int 10) \<rparr> \<rparr>])
   \<and> list_all (\<lambda>c. name c \<noteq> ''__proto__'' \<and> \<not> is_array_index (name c))
        [\<lparr> name = ''zone_name'',
           validation = \<lparr> type = Some TInteger, regex = None, allowedValues = None,
                          min_val = Some (number_of_int 0),
                          max_val = Some (number_of_int 10) \<rparr> \<rparr>]
   \<and> config_entries
        [\<lparr> name = ''zone_name'',
           validation = \<lparr> type = Some TInteger, regex = None, allowedValues = None,
                          min_val = Some (number_of_int 0),
                          max_val = Some (number_of_int 10) \<rparr> \<rparr>]
      = [(''zone_name'', \<lparr> type = Some TInteger, regex = None, allowedValues = None,
                            min_val = Some (number_of_int 0),
                            max_val = Some (number_of_int 10) \<rparr>)]
   \<and> single_line_entry
        (''zone_name'', \<lparr> type = Some TInteger, regex = None, allowedValues = None,
                           min_val = Some (number_of_int 0),
                           max_val = Some (number_of_int 10) \<rparr>)
   \<and> lines_of (yaml_entry
        (''zone_name'', \<lparr> type = Some TInteger, regex = None, allowedValues = None,
                           min_val = Some (number_of_int 0),
                           max_val = Some (number_of_int 10) \<rparr>))
      = [''  zone_name:'', ''    type: integer'', ''    '', ''    '',
         ''    min: 0'', ''    max: 10'']
   \<and> single_line_entry
        (''location'', \<lparr> type = None, regex = Some ''^z'',
                          allowedValues = Some [''a'', ''b''],
                          min_val = None, max_val = None \<rparr>)
   \<and> lines_of (yaml_entry
        (''location'', \<lparr> type = None, regex = Some ''^z'',
                          allowedValues = Some [''a'', ''b''],
                          min_val = None, max_val = None \<rparr>))
      = [''  location:'', ''    type: string'', ''    regex: "^z"'',
         ''    allowed_values: ["a","b"]'', ''    '', ''    '']\<close>
proof -
  let ?zr = "\<lparr> type = Some TInteger, regex = None, allowedValues = None,
               min_val = Some (number_of_int 0), max_val = Some (number_of_int 10) \<rparr>"
  let ?z = "\<lparr> name = ''zone_name'', validation = ?zr \<rparr>"
  let ?lr = "\<lparr> type = None, regex = Some ''^z'', allowedValues = Some [''a'', ''b''],
               min_val = None, max_val = None \<rparr>"
  note i1 = emit_entry_per_column [of "[?z]" ?z "''zone_name''" ?zr]
  note i2 = emit_entry_per_column [of "[?z]" ?z "''location''" ?lr]
  have h1: "?z \<in> set [?z]" by simp
  have h2: "distinct (map name [?z])" by simp
  have h3: "list_all (\<lambda>c. name c \<noteq> ''__proto__'' \<and> \<not> is_array_index (name c)) [?z]"
    by code_simp
  have s1: "single_line_entry (''zone_name'', ?zr)" by (simp add: single_line_entry_def)
  have s2: "single_line_entry (''location'', ?lr)" by (simp add: single_line_entry_def)
  from i1 [THEN conjunct2, THEN conjunct2, THEN conjunct2, THEN conjunct1] h2 h3
  have p3: "config_entries [?z] = [(''zone_name'', ?zr)]" by simp
  have n0: "number_to_string (number_of_int 0) = ''0''"
    by (simp add: number_eval; code_simp)
  have n10: "number_to_string (number_of_int 10) = ''10''"
    by (simp add: number_eval; code_simp)
  have js: \<open>JSON_stringify [''a'', ''b''] = ''["a","b"]''\<close>
    by code_simp
  from i1 [THEN conjunct2, THEN conjunct2, THEN conjunct2, THEN conjunct2, THEN conjunct1]
  obtain T R A MI MA where
    e: "single_line_entry (''zone_name'', ?zr) \<longrightarrow>
          lines_of (yaml_entry (''zone_name'', ?zr)) =
            [''  '' @ ''zone_name'' @ '':'', ''    type: '' @ T,
             ''    '' @ R, ''    '' @ A, ''    '' @ MI, ''    '' @ MA]"
    and t: "type ?zr = Some TInteger \<longrightarrow> T = ''integer''"
    and r: "R \<noteq> [] \<longrightarrow> regex ?zr \<noteq> None"
    and a: "allowedValues ?zr = None \<longrightarrow> A = []"
    and mi: "\<forall>x. min_val ?zr = Some x \<longrightarrow> MI = ''min: '' @ number_to_string x"
    and ma: "\<forall>x. max_val ?zr = Some x \<longrightarrow> MA = ''max: '' @ number_to_string x"
    by (elim exE conjE) (rule that)
  from t have T: "T = ''integer''" by simp
  from r have R: "R = []" by simp
  from a have A: "A = []" by simp
  from mi have MI: "MI = ''min: 0''" by (simp add: n0)
  from ma have MA: "MA = ''max: 10''" by (simp add: n10)
  from e s1 have "lines_of (yaml_entry (''zone_name'', ?zr)) =
            [''  '' @ ''zone_name'' @ '':'', ''    type: '' @ T,
             ''    '' @ R, ''    '' @ A, ''    '' @ MI, ''    '' @ MA]"
    by (rule mp)
  then have p4: "lines_of (yaml_entry (''zone_name'', ?zr))
      = [''  zone_name:'', ''    type: integer'', ''    '', ''    '',
         ''    min: 0'', ''    max: 10'']"
    unfolding T R A MI MA by simp
  from i2 [THEN conjunct2, THEN conjunct2, THEN conjunct2, THEN conjunct2, THEN conjunct1]
  obtain T' R' A' MI' MA' where
    e': "single_line_entry (''location'', ?lr) \<longrightarrow>
          lines_of (yaml_entry (''location'', ?lr)) =
            [''  '' @ ''location'' @ '':'', ''    type: '' @ T',
             ''    '' @ R', ''    '' @ A', ''    '' @ MI', ''    '' @ MA']"
    and t': "type ?lr = None \<longrightarrow> T' = ''string''"
    and r': "\<forall>r. regex ?lr = Some r \<and> r \<noteq> [] \<longrightarrow> R' = ''regex: '' @ [CHR 0x22] @ r @ [CHR 0x22]"
    and a': "\<forall>vs. allowedValues ?lr = Some vs \<longrightarrow> A' = ''allowed_values: '' @ JSON_stringify vs"
    and mi': "min_val ?lr = None \<longrightarrow> MI' = []"
    and ma': "max_val ?lr = None \<longrightarrow> MA' = []"
    by (elim exE conjE) (rule that)
  from t' have T': "T' = ''string''" by simp
  from r' have R': \<open>R' = ''regex: "^z"''\<close> by simp
  from a' have A': \<open>A' = ''allowed_values: ["a","b"]''\<close> by (simp add: js)
  from mi' have MI': "MI' = []" by simp
  from ma' have MA': "MA' = []" by simp
  from e' s2 have "lines_of (yaml_entry (''location'', ?lr)) =
            [''  '' @ ''location'' @ '':'', ''    type: '' @ T',
             ''    '' @ R', ''    '' @ A', ''    '' @ MI', ''    '' @ MA']"
    by (rule mp)
  then have p5: \<open>lines_of (yaml_entry (''location'', ?lr))
      = [''  location:'', ''    type: string'', ''    regex: "^z"'',
         ''    allowed_values: ["a","b"]'', ''    '', ''    '']\<close>
    unfolding T' R' A' MI' MA' by simp
  from h1 h2 h3 p3 s1 p4 s2 p5 show ?thesis by (intro conjI)
qed

text \<open>
  The claim as written covers every configuration. A configuration named \<open>__proto__\<close>
  gets no entry: the document is the empty one.
\<close>

theorem proto_entry_counterexample:
  "\<lparr> name = ''__proto__'',
      validation = \<lparr> type = Some TInteger, regex = None, allowedValues = None,
                     min_val = Some (number_of_int 0), max_val = Some (number_of_int 10) \<rparr> \<rparr>
     \<in> set [\<lparr> name = ''__proto__'',
              validation = \<lparr> type = Some TInteger, regex = None, allowedValues = None,
                             min_val = Some (number_of_int 0),
                             max_val = Some (number_of_int 10) \<rparr> \<rparr>]
   \<and> config_entries
        [\<lparr> name = ''__proto__'',
           validation = \<lparr> type = Some TInteger, regex = None, allowedValues = None,
                          min_val = Some (number_of_int 0),
                          max_val = Some (number_of_int 10) \<rparr> \<rparr>] = []
   \<and> generateYamlConfig
        [\<lparr> name = ''__proto__'',
           validation = \<lparr> type = Some TInteger, regex = None, allowedValues = None,
                          min_val = Some (number_of_int 0),
                          max_val = Some (number_of_int 10) \<rparr> \<rparr>]
      = ''# Validation Configuration\<newline># This file defines the validation rules for your data.\<newline># Each column in your data file should have an entry here.\<newline>\<newline>validations:\<newline>\<newline>''"
  by (simp add: generateYamlConfig_def yaml_header_def config_entries_def config_object_def
        Object_entries_def set_property_def)

end
